theory Spec2Isabelle
  imports Main "HOL-Library.AList"
begin

section \<open>The form-state engine of vee-validate (\<open>useForm\<close>)\<close>

text \<open>
  A shallow embedding of \<open>packages/vee-validate/src/types/common.ts\<close>: the path registry,
  the error bag, the meta aggregation, schema reconciliation, single-field validation,
  field renaming and the submission handler of \<open>useForm\<close>.

  A JavaScript object used as a dictionary is the association list of its own
  properties, in insertion order: \<open>obj[k] = v\<close> is \<^term>\<open>AList.update k v obj\<close> (in place
  when the key exists, appended otherwise), \<open>delete obj[k]\<close> is \<^term>\<open>AList.delete k obj\<close>
  and \<open>keysOf(obj)\<close> is \<open>map fst obj\<close>.  (JavaScript lists keys that look like array indices
  first; no statement below depends on the order of keys.)  A read \<open>obj[k]\<close> is
  \<^term>\<open>map_of obj k\<close> when \<open>k\<close> is an own property; when it is not, the read goes on to
  \<open>Object.prototype\<close>, see \<open>inheritedAt\<close> below.  (The reactive proxy that \<open>ref\<close> of Vue
  puts around such an object is not modelled.)
  A field object is mutable and shared, so the registry holds the ids of the fields and
  the state maps an id to the object.  Promises are run to completion in the order the
  code starts them; a rejected promise or a thrown exception is the \<open>Inl\<close> of a sum.
\<close>

subsection \<open>Values\<close>

type_synonym path = string

type_synonym field_id = nat

datatype jsval =
    JUndefined
  | JNull
  | JBool bool
  | JNum int
  | JStr string
  | JArr "jsval list"

text \<open>The argument of the error setters: \<open>string | string[] | undefined\<close>.\<close>

datatype message = MUndefined | MStr string | MArr "string list"

text \<open>JavaScript truthiness of such a message: \<open>undefined\<close> and \<open>''\<close> are falsy, every
  array is truthy, the empty one too.\<close>

fun truthy :: "message \<Rightarrow> bool" where
  "truthy MUndefined = False"
| "truthy (MStr s) = (s \<noteq> [])"
| "truthy (MArr xs) = True"

definition keysOf :: "('k \<times> 'v) list \<Rightarrow> 'k list" where
  "keysOf obj = map fst obj"

text \<open>
  The dictionaries of \<open>useForm\<close> (\<open>fieldsByPath\<close>, the error bag, the computed \<open>errors\<close>,
  the \<open>results\<close> of a validation) are plain objects, so a read \<open>obj[k]\<close> of a key that is
  no own property finds the member of \<open>Object.prototype\<close> with that name, when there is
  one.  These are the names of its members.  Each member is a function, \<open>__proto__\<close> the
  prototype object itself: a truthy value that is no array and no string and has none of
  the properties the code reads from a field or from a result (\<open>validate\<close>, \<open>meta\<close>, \<open>id\<close>,
  \<open>type\<close>, \<open>errors\<close>).
\<close>

definition objectPrototypeKeys :: "string list" where
  "objectPrototypeKeys =
     [''constructor'', ''__defineGetter__'', ''__defineSetter__'', ''hasOwnProperty'',
      ''__lookupGetter__'', ''__lookupSetter__'', ''isPrototypeOf'', ''propertyIsEnumerable'',
      ''toString'', ''valueOf'', ''__proto__'', ''toLocaleString'']"

text \<open>The read \<open>obj[k]\<close> gives an inherited member: \<open>k\<close> is no own property of \<open>obj\<close> and
  names a member of \<open>Object.prototype\<close>.\<close>

definition inheritedAt :: "(string \<times> 'v) list \<Rightarrow> string \<Rightarrow> bool" where
  "inheritedAt obj k = (map_of obj k = None \<and> k \<in> set objectPrototypeKeys)"

text \<open>What the code throws or rejects with: a value thrown by a callback of the user, or
  the \<open>TypeError\<close> of a call of what is no function and of a property access on
  \<open>undefined\<close>.\<close>

datatype js_error = Thrown string | TypeError

subsection \<open>Error bag (\<open>useErrorBag\<close>)\<close>

type_synonym error_bag = "(path \<times> string list) list"

text \<open>\<open>Array.isArray(message) ? message : message ? [message] : []\<close>\<close>

fun normalizeErrorItem :: "message \<Rightarrow> string list" where
  "normalizeErrorItem (MArr xs) = xs"
| "normalizeErrorItem (MStr s) = (if s \<noteq> [] then [s] else [])"
| "normalizeErrorItem MUndefined = []"

definition setFieldErrorBag :: "path \<Rightarrow> message \<Rightarrow> error_bag \<Rightarrow> error_bag" where
  "setFieldErrorBag field message bag =
     (if \<not> truthy message then AList.delete field bag
      else AList.update field (normalizeErrorItem message) bag)"

definition setErrorBag :: "(path \<times> message) list \<Rightarrow> error_bag" where
  "setErrorBag fields =
     foldl (\<lambda>acc key.
              (case map_of fields key of
                 Some message \<Rightarrow>
                   if truthy message then AList.update key (normalizeErrorItem message) acc
                   else acc
               | None \<Rightarrow> acc))
           [] (keysOf fields)"

text \<open>The computed \<open>errors\<close>: the first message of every bag that has one.\<close>

definition errors :: "error_bag \<Rightarrow> (path \<times> string) list" where
  "errors bag =
     foldl (\<lambda>acc key.
              (case map_of bag key of
                 Some (m # ms) \<Rightarrow> AList.update key m acc
               | _ \<Rightarrow> acc))
           [] (keysOf bag)"

text \<open>The messages held at a path: the entry's list, none when there is no entry.\<close>

definition messagesAt :: "error_bag \<Rightarrow> path \<Rightarrow> string list" where
  "messagesAt bag p = (case map_of bag p of Some ms \<Rightarrow> ms | None \<Rightarrow> [])"

subsection \<open>Value tree\<close>

text \<open>
  \<open>getFromPath\<close>, \<open>setInPath\<close>, \<open>unsetPath\<close> and \<open>isEqual\<close> (of \<open>./utils\<close>) and \<open>deepCopy\<close>
  (\<open>klona\<close>) are not among the sources.  The spec has the value tree as a mapping
  addressed by paths, "mutated exclusively via path-set/unset operations", and deep
  equality and deep clone as primitives.  The tree is modelled as the association list of
  its paths and the values stored there; how a path is split into segments, and that a
  write below a path changes what is read at the path, is not modelled.
\<close>

type_synonym value_tree = "(path \<times> jsval) list"

text \<open>Modelled from the spec: \<open>getFromPath\<close> is missing; a read of a path gives the value
  stored there, \<open>undefined\<close> when the path has no entry.\<close>

definition getFromPath :: "value_tree \<Rightarrow> path \<Rightarrow> jsval" where
  "getFromPath object p = (case map_of object p of Some v \<Rightarrow> v | None \<Rightarrow> JUndefined)"

text \<open>Modelled from the spec: \<open>setInPath\<close> is missing; path-set writes the entry of the
  path.\<close>

definition setInPath :: "value_tree \<Rightarrow> path \<Rightarrow> jsval \<Rightarrow> value_tree" where
  "setInPath object p v = AList.update p v object"

text \<open>Modelled from the spec: \<open>unsetPath\<close> is missing; path-unset removes the entry of the
  path.\<close>

definition unsetPath :: "value_tree \<Rightarrow> path \<Rightarrow> value_tree" where
  "unsetPath object p = AList.delete p object"

text \<open>Modelled from the spec: \<open>isEqual\<close> is missing; two trees are deeply equal when they
  have the same paths and equal values at each.\<close>

definition isEqual :: "value_tree \<Rightarrow> value_tree \<Rightarrow> bool" where
  "isEqual a b =
     (set (keysOf a) = set (keysOf b) \<and> list_all (\<lambda>k. map_of a k = map_of b k) (keysOf a))"

text \<open>Modelled from the spec: \<open>deepCopy\<close> is missing; the clone of an immutable value is the
  value.\<close>

definition deepCopy :: "'a \<Rightarrow> 'a" where
  "deepCopy v = v"

subsection \<open>Fields and the path registry\<close>

record field_meta =
  touched :: bool
  pending :: bool
  valid :: bool
  validated :: bool

text \<open>A field object (\<open>PrivateFieldContext\<close>), as far as \<open>useForm\<close> reads it.  Its \<open>id\<close>
  is its address among the field objects.\<close>

record field =
  name :: path
  meta :: field_meta
  type_tag :: "string option"
  uncheckedValue :: jsval

text \<open>\<open>FieldPathLookup\<close>: a path holds one field or an array of fields.\<close>

datatype entry = Single field_id | Group "field_id list"

text \<open>
  An entry holds fields only.  At a path that names a member of \<open>Object.prototype\<close> and
  has no entry, \<open>insertFieldAtPath\<close> of the code finds the inherited member truthy and
  stores the array of that member and the field; the entry type has no such array and
  \<open>insertFieldAtPath\<close> below stores the field alone there.  The statements that depend on
  the difference are stated for the other paths.  (\<open>removeFieldFromPath\<close> compares the
  \<open>id\<close> of what it finds, which an inherited member has not, and leaves the registry alone
  as it does for a path with no entry; \<open>setFieldValue\<close> finds no \<open>type\<close> on an inherited
  member and writes the value as it does for a path with no entry.)
\<close>

type_synonym registry = "(path \<times> entry) list"

fun isFieldGroup :: "entry \<Rightarrow> bool" where
  "isFieldGroup (Group fs) = True"
| "isFieldGroup (Single f) = False"

text \<open>The fields \<open>applyFieldMutation\<close> visits.\<close>

fun members :: "entry \<Rightarrow> field_id list" where
  "members (Group fs) = fs"
| "members (Single f) = [f]"

definition insertFieldAtPath :: "field_id \<Rightarrow> path \<Rightarrow> registry \<Rightarrow> registry" where
  "insertFieldAtPath field fieldPath reg =
     (case map_of reg fieldPath of
        None \<Rightarrow> AList.update fieldPath (Single field) reg
      | Some (Single fieldAtPath) \<Rightarrow> AList.update fieldPath (Group ([fieldAtPath] @ [field])) reg
      | Some (Group fs) \<Rightarrow> AList.update fieldPath (Group (fs @ [field])) reg)"

text \<open>\<open>findIndex\<close> gives the first member with the id, \<open>splice(idx, 1)\<close> removes it.\<close>

definition removeFieldFromPath :: "field_id \<Rightarrow> path \<Rightarrow> registry \<Rightarrow> registry" where
  "removeFieldFromPath field fieldPath reg =
     (case map_of reg fieldPath of
        None \<Rightarrow> reg
      | Some (Single fieldAtPath) \<Rightarrow>
          if field = fieldAtPath then AList.delete fieldPath reg else reg
      | Some (Group fs) \<Rightarrow>
          if field \<notin> set fs then reg
          else if remove1 field fs = [] then AList.delete fieldPath reg
          else AList.update fieldPath (Group (remove1 field fs)) reg)"

subsection \<open>Form state\<close>

datatype event =
    Warn string
  | PreventDefault
  | StopPropagation
  | ValidateCall field_id

record form_state =
  fieldsByPath :: registry
  fieldObjects :: "field_id \<Rightarrow> field"
  formValues :: value_tree
  initialValues :: value_tree
  originalInitialValues :: value_tree
  errorBag :: error_bag
  initialErrors :: "(path \<times> string) list"
  controlledModelPaths :: "path list"
  isSubmitting :: bool
  submitCount :: nat
  RESET_LOCK :: bool
  trace :: "event list"

text \<open>\<open>FormOptions\<close>; \<open>cast\<close> is the \<open>cast\<close> of a typed validation schema, when it has
  one.\<close>

record form_options =
  opt_initialValues :: "value_tree option"
  opt_initialErrors :: "(path \<times> string) list option"
  opt_cast :: "(value_tree \<Rightarrow> value_tree) option"

definition resolveInitialValues :: "form_options \<Rightarrow> value_tree" where
  "resolveInitialValues opts =
     (let providedValues = (case opt_initialValues opts of Some v \<Rightarrow> v | None \<Rightarrow> [])
      in case opt_cast opts of
           Some cast \<Rightarrow> deepCopy (cast providedValues)
         | None \<Rightarrow> deepCopy providedValues)"

text \<open>The state \<open>useForm\<close> sets up before any field registers.\<close>

definition useForm :: "form_options \<Rightarrow> (field_id \<Rightarrow> field) \<Rightarrow> form_state" where
  "useForm opts objs =
     \<lparr> fieldsByPath = [],
       fieldObjects = objs,
       formValues = resolveInitialValues opts,
       initialValues = resolveInitialValues opts,
       originalInitialValues = deepCopy (resolveInitialValues opts),
       errorBag = (case opt_initialErrors opts of
                     Some ie \<Rightarrow> setErrorBag (map (\<lambda>(p, m). (p, MStr m)) ie)
                   | None \<Rightarrow> []),
       initialErrors = (case opt_initialErrors opts of Some ie \<Rightarrow> ie | None \<Rightarrow> []),
       controlledModelPaths = [],
       isSubmitting = False,
       submitCount = 0,
       RESET_LOCK = False,
       trace = [] \<rparr>"

text \<open>\<open>!!fieldsByPath.value[path]\<close>: an entry is truthy, and so is an inherited member.\<close>

definition fieldExists :: "path \<Rightarrow> form_state \<Rightarrow> bool" where
  "fieldExists p s = (map_of (fieldsByPath s) p \<noteq> None \<or> inheritedAt (fieldsByPath s) p)"

definition applyFieldMutation ::
  "entry \<Rightarrow> (field_id \<Rightarrow> form_state \<Rightarrow> form_state) \<Rightarrow> form_state \<Rightarrow> form_state" where
  "applyFieldMutation fieldOrGroup mutation s = foldl (\<lambda>st f. mutation f st) s (members fieldOrGroup)"

definition mutateAllFields :: "(field_id \<Rightarrow> form_state \<Rightarrow> form_state) \<Rightarrow> form_state \<Rightarrow> form_state" where
  "mutateAllFields mutation s =
     foldl (\<lambda>st e. applyFieldMutation e mutation st) s (map snd (fieldsByPath s))"

definition updateMeta :: "(field_meta \<Rightarrow> field_meta) \<Rightarrow> field_id \<Rightarrow> form_state \<Rightarrow> form_state" where
  "updateMeta g f s = s\<lparr> fieldObjects := (fieldObjects s)(f := (fieldObjects s f)\<lparr> meta := g (meta (fieldObjects s f)) \<rparr>) \<rparr>"

definition setFieldError :: "path \<Rightarrow> message \<Rightarrow> form_state \<Rightarrow> form_state" where
  "setFieldError field message s = s\<lparr> errorBag := setFieldErrorBag field message (errorBag s) \<rparr>"

definition setErrors :: "(path \<times> message) list \<Rightarrow> form_state \<Rightarrow> form_state" where
  "setErrors flds s = s\<lparr> errorBag := setErrorBag flds \<rparr>"

text \<open>
  Modelled from the spec: the method \<open>setState\<close> of a field (\<open>useField\<close>,
  \<open>useFieldState\<close>) is missing.  By the field contract of the spec, \<open>setState({errors})\<close>
  pushes the errors into the field's error state, which is the error-bag entry of the
  field's own path, written through the \<open>setFieldErrorBag\<close> that the form context hands
  to its fields.
\<close>

definition field_setState_errors :: "string list \<Rightarrow> field_id \<Rightarrow> form_state \<Rightarrow> form_state" where
  "field_setState_errors errs f s =
     s\<lparr> errorBag := setFieldErrorBag (name (fieldObjects s f)) (MArr errs) (errorBag s) \<rparr>"

text \<open>Modelled from the spec: the method \<open>setTouched\<close> of a field is missing; it sets the
  field's \<open>touched\<close> flag.\<close>

definition field_setTouched :: "bool \<Rightarrow> field_id \<Rightarrow> form_state \<Rightarrow> form_state" where
  "field_setTouched isTouched f s = updateMeta (\<lambda>m. m\<lparr> touched := isTouched \<rparr>) f s"

text \<open>\<open>setFieldTouched\<close>, for a path at which nothing is inherited; \<open>setTouched\<close> of the
  submission handler calls it with the keys of \<open>fieldsByPath\<close>.\<close>

definition setFieldTouched :: "path \<Rightarrow> bool \<Rightarrow> form_state \<Rightarrow> form_state" where
  "setFieldTouched field isTouched s =
     (case map_of (fieldsByPath s) field of
        Some fieldInstance \<Rightarrow> applyFieldMutation fieldInstance (field_setTouched isTouched) s
      | None \<Rightarrow> s)"

definition setTouched :: "(path \<times> bool) list \<Rightarrow> form_state \<Rightarrow> form_state" where
  "setTouched flds s =
     foldl (\<lambda>st field. setFieldTouched field (map_of flds field = Some True) st) s (keysOf flds)"

subsection \<open>Meta aggregation (\<open>useFormMeta\<close>)\<close>

record form_meta =
  meta_initialValues :: value_tree
  form_touched :: bool
  form_pending :: bool
  form_valid :: bool
  dirty :: bool

text \<open>\<open>Object.values(fieldsByPath.value).flat(1).filter(Boolean)\<close>\<close>

definition allFields :: "registry \<Rightarrow> field_id list" where
  "allFields reg = concat (map (\<lambda>e. members e) (map snd reg))"

text \<open>\<open>calculateFlags\<close> with \<open>MERGE_STRATEGIES\<close>: \<open>some\<close> for \<open>touched\<close> and \<open>pending\<close>,
  \<open>every\<close> for \<open>valid\<close>.\<close>

definition calculateFlags :: "registry \<Rightarrow> (field_id \<Rightarrow> field) \<Rightarrow> bool \<times> bool \<times> bool" where
  "calculateFlags reg objs =
     (let flds = map objs (allFields reg)
      in (list_ex (\<lambda>fld. touched (meta fld)) flds,
          list_ex (\<lambda>fld. pending (meta fld)) flds,
          list_all (\<lambda>fld. valid (meta fld)) flds))"

definition useFormMeta ::
  "registry \<Rightarrow> (field_id \<Rightarrow> field) \<Rightarrow> value_tree \<Rightarrow> value_tree \<Rightarrow> (path \<times> string) list \<Rightarrow> form_meta" where
  "useFormMeta reg objs currentValues initialValues' errs =
     (case calculateFlags reg objs of
        (flag_touched, flag_pending, flag_valid) \<Rightarrow>
          \<lparr> meta_initialValues = initialValues',
            form_touched = flag_touched,
            form_pending = flag_pending,
            form_valid = (flag_valid \<and> length (keysOf errs) = 0),
            dirty = (\<not> isEqual currentValues initialValues') \<rparr>)"

text \<open>\<open>const meta = useFormMeta(fieldsByPath, formValues, originalInitialValues, errors)\<close>\<close>

definition formMeta :: "form_state \<Rightarrow> form_meta" where
  "formMeta s =
     useFormMeta (fieldsByPath s) (fieldObjects s) (formValues s) (originalInitialValues s)
       (errors (errorBag s))"

subsection \<open>Values and initial values\<close>

text \<open>A falsy value of JavaScript, for \<open>x || []\<close>.\<close>

fun falsy :: "jsval \<Rightarrow> bool" where
  "falsy JUndefined = True"
| "falsy JNull = True"
| "falsy (JBool b) = (\<not> b)"
| "falsy (JNum n) = (n = 0)"
| "falsy (JStr s) = (s = [])"
| "falsy (JArr xs) = False"

fun isArray :: "jsval \<Rightarrow> bool" where
  "isArray (JArr xs) = True"
| "isArray v = False"

text \<open>\<open>fieldInstance[0]?.type\<close> of a group.\<close>

fun firstType :: "(field_id \<Rightarrow> field) \<Rightarrow> field_id list \<Rightarrow> string option" where
  "firstType objs [] = None"
| "firstType objs (f # fs) = type_tag (objs f)"

text \<open>\<open>setFieldValue\<close>.  \<open>resolveNext\<close> is \<open>resolveNextCheckboxValue\<close> of \<open>./utils\<close>, which
  is not among the sources and is taken as a parameter.\<close>

definition setFieldValue ::
  "(jsval \<Rightarrow> jsval \<Rightarrow> jsval \<Rightarrow> jsval) \<Rightarrow> path \<Rightarrow> jsval \<Rightarrow> bool \<Rightarrow> form_state \<Rightarrow> form_state" where
  "setFieldValue resolveNext field v force s =
     (let clonedValue = deepCopy v in
      case map_of (fieldsByPath s) field of
        None \<Rightarrow> s\<lparr> formValues := setInPath (formValues s) field clonedValue \<rparr>
      | Some (Group fs) \<Rightarrow>
          if firstType (fieldObjects s) fs = Some ''checkbox'' \<and> \<not> isArray v
          then
            (let cur = getFromPath (formValues s) field;
                 newValue = deepCopy (resolveNext (if falsy cur then JArr [] else cur) v JUndefined)
             in s\<lparr> formValues := setInPath (formValues s) field newValue \<rparr>)
          else s\<lparr> formValues := setInPath (formValues s) field clonedValue \<rparr>
      | Some (Single f) \<Rightarrow>
          if type_tag (fieldObjects s f) = Some ''checkbox'' \<and> \<not> force \<and> \<not> RESET_LOCK s
          then
            (let newValue =
                   deepCopy (resolveNext (getFromPath (formValues s) field) v
                                         (uncheckedValue (fieldObjects s f)))
             in s\<lparr> formValues := setInPath (formValues s) field newValue \<rparr>)
          else s\<lparr> formValues := setInPath (formValues s) field clonedValue \<rparr>)"

definition setFieldInitialValue :: "path \<Rightarrow> jsval \<Rightarrow> form_state \<Rightarrow> form_state" where
  "setFieldInitialValue p v s = s\<lparr> initialValues := setInPath (initialValues s) p (deepCopy v) \<rparr>"

text \<open>\<open>stageInitialValue\<close>; \<open>opts\<close> are the options the form was made with.\<close>

definition stageInitialValue ::
  "form_options \<Rightarrow> path \<Rightarrow> jsval \<Rightarrow> bool \<Rightarrow> form_state \<Rightarrow> form_state" where
  "stageInitialValue opts p v updateOriginal s =
     (let s1 = s\<lparr> formValues := setInPath (formValues s) p v \<rparr>;
          s2 = setFieldInitialValue p v s1
      in if updateOriginal \<and> opt_initialValues opts = None
         then s2\<lparr> originalInitialValues := setInPath (originalInitialValues s2) p (deepCopy v) \<rparr>
         else s2)"

text \<open>The computed \<open>controlledValues\<close>; \<open>controlledModelPaths\<close> are the elements of the
  \<open>Set\<close>, in the order they were added.\<close>

definition controlledValues :: "form_state \<Rightarrow> value_tree" where
  "controlledValues s =
     foldl (\<lambda>acc p. setInPath acc p (getFromPath (formValues s) p))
           [] (controlledModelPaths s @ keysOf (fieldsByPath s))"

subsection \<open>Schema validation (\<open>validateSchema\<close>)\<close>

datatype mode = Silent | ValidatedOnly | Force

record validation_result =
  vr_valid :: bool
  vr_errors :: "string list"

record form_result =
  fr_valid :: bool
  fr_results :: "(path \<times> validation_result) list"
  fr_errors :: "(path \<times> string) list"
  fr_values :: "value_tree option"

text \<open>
  A validation schema, as the form sees it: \<open>validateTypedSchema\<close> and
  \<open>validateObjectSchema\<close> (of \<open>./validate\<close>) are not among the sources and are taken as a
  parameter, a function from the form (its values, the names and labels of its fields)
  to the per-path result.
\<close>

type_synonym schema = "form_state \<Rightarrow> form_result"

text \<open>\<open>[...new Set(xs)]\<close>: the first occurrence of every element, in order.\<close>

definition uniq :: "'a list \<Rightarrow> 'a list" where
  "uniq xs = rev (remdups (rev xs))"

definition reconcilePaths :: "form_result \<Rightarrow> form_state \<Rightarrow> path list" where
  "reconcilePaths formResult s =
     uniq (keysOf (fr_results formResult) @ keysOf (fieldsByPath s) @ keysOf (errorBag s))"

definition wasValidated :: "(field_id \<Rightarrow> field) \<Rightarrow> entry \<Rightarrow> bool" where
  "wasValidated objs e =
     (case e of
        Group fs \<Rightarrow> list_ex (\<lambda>f. validated (meta (objs f))) fs
      | Single f \<Rightarrow> validated (meta (objs f)))"

text \<open>\<open>(formResult.results[path] || { errors: [] }).errors\<close>\<close>

definition schemaMessages :: "form_result \<Rightarrow> path \<Rightarrow> string list" where
  "schemaMessages formResult p =
     (case map_of (fr_results formResult) p of Some r \<Rightarrow> vr_errors r | None \<Rightarrow> [])"

text \<open>
  A round of the \<open>paths.reduce\<close> of \<open>validateSchema\<close> throws when one of its two reads
  gives an inherited member: of \<open>formResult.results[path]\<close> the \<open>errors\<close> are \<open>undefined\<close>
  and \<open>messages.length\<close> throws; \<open>fieldsById[path]\<close> is truthy and has no \<open>meta\<close>, and the
  mutation \<open>f.meta.valid = ...\<close> throws.  Both happen before the round has written to the
  form.
\<close>

definition throwsAt :: "form_result \<Rightarrow> registry \<Rightarrow> path \<Rightarrow> bool" where
  "throwsAt formResult fieldsById p =
     (inheritedAt (fr_results formResult) p \<or> inheritedAt fieldsById p)"

text \<open>One round of the \<open>paths.reduce\<close> of \<open>validateSchema\<close> that does not throw.\<close>

definition reconcileStep ::
  "mode \<Rightarrow> form_result \<Rightarrow> registry \<Rightarrow> form_result \<times> form_state \<Rightarrow> path \<Rightarrow> form_result \<times> form_state" where
  "reconcileStep md formResult fieldsById acc p =
     (let validation = fst acc;
          s = snd acc;
          messages = schemaMessages formResult p;
          fieldResult = \<lparr> vr_valid = (length messages = 0), vr_errors = messages \<rparr>;
          validation1 = validation\<lparr> fr_results := AList.update p fieldResult (fr_results validation) \<rparr>;
          validation2 =
            (case vr_errors fieldResult of
               [] \<Rightarrow> validation1
             | m # ms \<Rightarrow> validation1\<lparr> fr_errors := AList.update p m (fr_errors validation1) \<rparr>)
      in (case map_of fieldsById p of
            None \<Rightarrow> (validation2, setFieldError p (MArr messages) s)
          | Some field \<Rightarrow>
              (let s1 = applyFieldMutation field
                          (updateMeta (\<lambda>m. m\<lparr> valid := vr_valid fieldResult \<rparr>)) s
               in (if md = Silent then (validation2, s1)
                   else if md = ValidatedOnly \<and> \<not> wasValidated (fieldObjects s1) field
                   then (validation2, s1)
                   else (validation2,
                         applyFieldMutation field (field_setState_errors (vr_errors fieldResult)) s1)))))"

text \<open>\<open>paths.reduce\<close>: the rounds in the order of the paths, up to the first that throws;
  what the rounds before it have written stays written.\<close>

fun reconcileLoop ::
  "mode \<Rightarrow> form_result \<Rightarrow> registry \<Rightarrow> path list \<Rightarrow> form_result \<times> form_state \<Rightarrow>
     (js_error + form_result) \<times> form_state" where
  "reconcileLoop md formResult fieldsById [] acc = (Inr (fst acc), snd acc)"
| "reconcileLoop md formResult fieldsById (p # ps) acc =
     (if throwsAt formResult fieldsById p then (Inl TypeError, snd acc)
      else reconcileLoop md formResult fieldsById ps (reconcileStep md formResult fieldsById acc p))"

text \<open>The second argument of \<open>withLatest\<close> in \<open>validateSchema\<close>: the reconciliation of a
  schema result with the fields and the error bag.  It returns the aggregate of the
  rounds.\<close>

definition reconcile ::
  "mode \<Rightarrow> form_result \<Rightarrow> form_state \<Rightarrow> (js_error + form_result) \<times> form_state" where
  "reconcile md formResult s =
     reconcileLoop md formResult (fieldsByPath s) (reconcilePaths formResult s)
       (\<lparr> fr_valid = fr_valid formResult, fr_results = [], fr_errors = [], fr_values = None \<rparr>, s)"

definition runValidateSchema :: "schema option \<Rightarrow> form_state \<Rightarrow> form_result" where
  "runValidateSchema schemaValue s =
     (case schemaValue of
        None \<Rightarrow> \<lparr> fr_valid = True, fr_results = [], fr_errors = [], fr_values = None \<rparr>
      | Some sc \<Rightarrow> sc s)"

text \<open>
  Modelled from the spec: \<open>withLatest\<close> and \<open>debounceAsync\<close> (of \<open>./utils\<close>) are not among
  the sources.  By the spec the requests of one window are one schema evaluation and
  every caller gets its settled result; the model is the run of a window with one
  caller, whose result is the latest: the schema is evaluated, the result is reconciled
  and the caller gets the schema's result; when the reconciliation throws, the promise
  of the caller rejects.
\<close>

definition validateSchema ::
  "schema option \<Rightarrow> mode \<Rightarrow> form_state \<Rightarrow> (js_error + form_result) \<times> form_state" where
  "validateSchema schemaValue md s =
     (let formResult = runValidateSchema schemaValue s
      in case reconcile md formResult s of
           (Inl err, s') \<Rightarrow> (Inl err, s')
         | (Inr validation, s') \<Rightarrow> (Inr formResult, s'))"

subsection \<open>Field validation (\<open>validate\<close>, \<open>validateField\<close>)\<close>

text \<open>
  The \<open>validate\<close> method of a field (\<open>useField\<close>) is not among the sources and is taken as
  a parameter: the result it resolves to and what it does to the form.  A call of it is
  recorded in the trace, which is no part of what a validator can write.
\<close>

type_synonym field_validator =
  "field_id \<Rightarrow> mode option \<Rightarrow> form_state \<Rightarrow> validation_result \<times> form_state"

definition callValidate ::
  "field_validator \<Rightarrow> field_id \<Rightarrow> mode option \<Rightarrow> form_state \<Rightarrow> validation_result \<times> form_state" where
  "callValidate fv f opts s =
     (case fv f opts s of (r, s') \<Rightarrow> (r, s'\<lparr> trace := trace s @ [ValidateCall f] \<rparr>))"

text \<open>\<open>Array.isArray(field) ? field[0] : field\<close>\<close>

fun firstInstance :: "entry \<Rightarrow> field_id option" where
  "firstInstance (Single f) = Some f"
| "firstInstance (Group []) = None"
| "firstInstance (Group (f # fs)) = Some f"

fun validateAll ::
  "field_validator \<Rightarrow> mode option \<Rightarrow> entry list \<Rightarrow> form_state \<Rightarrow>
     (path \<times> validation_result) list \<times> form_state" where
  "validateAll fv opts [] s = ([], s)"
| "validateAll fv opts (e # es) s =
     (case firstInstance e of
        None \<Rightarrow>
          (case validateAll fv opts es s of
             (vs, s') \<Rightarrow> (('''', \<lparr> vr_valid = True, vr_errors = [] \<rparr>) # vs, s'))
      | Some f \<Rightarrow>
          (case callValidate fv f opts s of
             (r, s1) \<Rightarrow>
               (case validateAll fv opts es s1 of
                  (vs, s2) \<Rightarrow> ((name (fieldObjects s1 f), r) # vs, s2))))"

definition validate ::
  "field_validator \<Rightarrow> schema option \<Rightarrow> mode option \<Rightarrow> form_state \<Rightarrow>
     (js_error + form_result) \<times> form_state" where
  "validate fv schemaValue opts s =
     (let md = (case opts of Some m \<Rightarrow> m | None \<Rightarrow> Force);
          s1 = (if md = Force
                then mutateAllFields (updateMeta (\<lambda>m. m\<lparr> validated := True \<rparr>)) s
                else s)
      in case schemaValue of
           Some sc \<Rightarrow> validateSchema schemaValue md s1
         | None \<Rightarrow>
             (case validateAll fv opts (map snd (fieldsByPath s1)) s1 of
                (validations, s2) \<Rightarrow>
                  (Inr \<lparr> fr_valid = list_all (\<lambda>v. vr_valid (snd v)) validations,
                     fr_results = foldl (\<lambda>acc v. AList.update (fst v) (snd v) acc) [] validations,
                     fr_errors =
                       foldl (\<lambda>acc v.
                                (case vr_errors (snd v) of
                                   [] \<Rightarrow> acc
                                 | m # ms \<Rightarrow> AList.update (fst v) m acc))
                             [] validations,
                     fr_values = None \<rparr>, s2)))"

text \<open>\<open>fieldInstance.map(f => f.validate())\<close>: every member is called, in order.\<close>

fun mapValidate ::
  "field_validator \<Rightarrow> field_id list \<Rightarrow> form_state \<Rightarrow> validation_result list \<times> form_state" where
  "mapValidate fv [] s = ([], s)"
| "mapValidate fv (f # fs) s =
     (case callValidate fv f None s of
        (r, s1) \<Rightarrow> (case mapValidate fv fs s1 of (rs, s2) \<Rightarrow> (r # rs, s2)))"

text \<open>\<open>validateField\<close>; \<open>None\<close> is the \<open>undefined\<close> that \<open>[][0]\<close> gives.  At a path with no
  entry that names a member of \<open>Object.prototype\<close>, \<open>fieldInstance\<close> is the inherited
  member: it is truthy and no array, \<open>fieldInstance.validate\<close> is no function, and the
  promise of the \<open>async\<close> function rejects with the \<open>TypeError\<close>.\<close>

definition validateField ::
  "field_validator \<Rightarrow> path \<Rightarrow> form_state \<Rightarrow> (js_error + validation_result option) \<times> form_state" where
  "validateField fv field s =
     (case map_of (fieldsByPath s) field of
        None \<Rightarrow>
          if field \<in> set objectPrototypeKeys then (Inl TypeError, s)
          else
            (Inr (Some \<lparr> vr_valid = True, vr_errors = [] \<rparr>),
             s\<lparr> trace := trace s @ [Warn (''field with name '' @ field @ '' was not found'')] \<rparr>)
      | Some (Group fs) \<Rightarrow>
          (case mapValidate fv fs s of
             (rs, s') \<Rightarrow> (Inr (case rs of [] \<Rightarrow> None | r # rest \<Rightarrow> Some r), s'))
      | Some (Single f) \<Rightarrow>
          (case callValidate fv f None s of (r, s') \<Rightarrow> (Inr (Some r), s')))"

subsection \<open>Registration and renaming (\<open>registerField\<close>)\<close>

text \<open>Truthiness of \<open>errors.value[p]\<close>: a message is truthy when it is not the empty
  string, and an inherited member is truthy.\<close>

definition hasError :: "path \<Rightarrow> form_state \<Rightarrow> bool" where
  "hasError p s =
     (case map_of (errors (errorBag s)) p of
        Some m \<Rightarrow> m \<noteq> []
      | None \<Rightarrow> p \<in> set objectPrototypeKeys)"

text \<open>The callback of \<open>watch(field.name, ...)\<close>, after its first \<open>nextTick\<close>: the field
  leaves the old path and enters the new one.\<close>

definition reRegister :: "field_id \<Rightarrow> path \<Rightarrow> path \<Rightarrow> form_state \<Rightarrow> form_state" where
  "reRegister field newPath oldPath s =
     (let s1 = s\<lparr> fieldsByPath := removeFieldFromPath field oldPath (fieldsByPath s) \<rparr>
      in s1\<lparr> fieldsByPath := insertFieldAtPath field newPath (fieldsByPath s1) \<rparr>)"

text \<open>The callback up to its second \<open>nextTick\<close>.  The promise of \<open>validateField\<close> is not
  awaited: the callback goes on whether it resolves or rejects.\<close>

definition nameWatch_reregister ::
  "field_validator \<Rightarrow> field_id \<Rightarrow> path \<Rightarrow> path \<Rightarrow> form_state \<Rightarrow> form_state" where
  "nameWatch_reregister fv field newPath oldPath s =
     (let s2 = reRegister field newPath oldPath s
      in if hasError oldPath s2 \<or> hasError newPath s2
         then snd (validateField fv newPath (setFieldError oldPath MUndefined s2))
         else s2)"

text \<open>The rest of the callback, after the second \<open>nextTick\<close>.\<close>

definition nameWatch_cleanup :: "path \<Rightarrow> form_state \<Rightarrow> form_state" where
  "nameWatch_cleanup oldPath s =
     (if \<not> fieldExists oldPath s then s\<lparr> formValues := unsetPath (formValues s) oldPath \<rparr> else s)"

definition nameWatch ::
  "field_validator \<Rightarrow> field_id \<Rightarrow> path \<Rightarrow> path \<Rightarrow> form_state \<Rightarrow> form_state" where
  "nameWatch fv field newPath oldPath s =
     nameWatch_cleanup oldPath (nameWatch_reregister fv field newPath oldPath s)"

text \<open>A field's reactive name changes.\<close>

definition nameChanged :: "field_id \<Rightarrow> path \<Rightarrow> form_state \<Rightarrow> form_state" where
  "nameChanged field newPath s =
     s\<lparr> fieldObjects := (fieldObjects s)(field := (fieldObjects s field)\<lparr> name := newPath \<rparr>) \<rparr>"

text \<open>The change and the run of the watcher, which runs when the new name differs.\<close>

definition renameField :: "field_validator \<Rightarrow> field_id \<Rightarrow> path \<Rightarrow> form_state \<Rightarrow> form_state" where
  "renameField fv field newPath s =
     (let oldPath = name (fieldObjects s field);
          s0 = nameChanged field newPath s
      in if newPath = oldPath then s0 else nameWatch fv field newPath oldPath s0)"

text \<open>
  Modelled from the spec: \<open>field.errorMessage\<close> (\<open>useField\<close>) is not among the sources; it
  is the first message of the field's error state.
\<close>

definition errorMessage :: "field_id \<Rightarrow> form_state \<Rightarrow> string option" where
  "errorMessage f s =
     (case messagesAt (errorBag s) (name (fieldObjects s f)) of [] \<Rightarrow> None | m # ms \<Rightarrow> Some m)"

definition registerField :: "field_validator \<Rightarrow> field_id \<Rightarrow> form_state \<Rightarrow> form_state" where
  "registerField fv field s =
     (let fieldPath = name (fieldObjects s field);
          s1 = s\<lparr> fieldsByPath := insertFieldAtPath field fieldPath (fieldsByPath s) \<rparr>;
          s2 = (case errorMessage field s1 of
                  Some m \<Rightarrow>
                    if m \<noteq> [] \<and> map_of (initialErrors s1) fieldPath \<noteq> Some m
                    then snd (validateField fv fieldPath s1)
                    else s1
                | None \<Rightarrow> s1)
      in s2\<lparr> initialErrors := AList.delete fieldPath (initialErrors s2) \<rparr>)"

subsection \<open>Submission (\<open>handleSubmit\<close>)\<close>

record invalid_submission =
  inv_values :: value_tree
  inv_errors :: "(path \<times> string) list"
  inv_results :: "(path \<times> validation_result) list"

text \<open>
  The callbacks of the user: what they return or throw, and what they do to the form
  through the mutators they are handed.  The success callback gets the submitted values
  and the controlled values.
\<close>

type_synonym 'r success_handler =
  "value_tree \<Rightarrow> value_tree \<Rightarrow> form_state \<Rightarrow> (js_error + 'r) \<times> form_state"

type_synonym invalid_handler =
  "invalid_submission \<Rightarrow> form_state \<Rightarrow> (js_error + unit) \<times> form_state"

text \<open>What the success callback is given as the submitted values.\<close>

definition submittedValues :: "bool \<Rightarrow> form_result \<Rightarrow> form_state \<Rightarrow> value_tree" where
  "submittedValues onlyControlled result s =
     (let vals = deepCopy (formValues s);
          controlled = deepCopy (controlledValues s)
      in case fr_values result of
           Some v \<Rightarrow> v
         | None \<Rightarrow> if onlyControlled then controlled else vals)"

text \<open>The first \<open>then\<close> of \<open>submissionHandler\<close>.\<close>

definition submissionBody ::
  "bool \<Rightarrow> 'r success_handler option \<Rightarrow> invalid_handler option \<Rightarrow> form_result \<Rightarrow> form_state \<Rightarrow>
     (js_error + 'r option) \<times> form_state" where
  "submissionBody onlyControlled fn onValidationError result s =
     (let vals = deepCopy (formValues s) in
      case (fr_valid result, fn) of
        (True, Some f) \<Rightarrow>
          (case f (submittedValues onlyControlled result s) (deepCopy (controlledValues s)) s of
             (Inl err, s') \<Rightarrow> (Inl err, s')
           | (Inr r, s') \<Rightarrow> (Inr (Some r), s'))
      | _ \<Rightarrow>
          (case (fr_valid result, onValidationError) of
             (False, Some g) \<Rightarrow>
               (case g \<lparr> inv_values = vals, inv_errors = fr_errors result,
                         inv_results = fr_results result \<rparr> s of
                  (Inl err, s') \<Rightarrow> (Inl err, s')
                | (Inr u, s') \<Rightarrow> (Inr None, s'))
           | _ \<Rightarrow> (Inr None, s)))"

text \<open>\<open>submissionHandler\<close> up to its call of \<open>validate\<close>; \<open>isEvent\<close> is
  \<open>e instanceof Event\<close>.\<close>

definition submitStart :: "bool \<Rightarrow> form_state \<Rightarrow> form_state" where
  "submitStart isEvent s =
     (let s0 = (if isEvent then s\<lparr> trace := trace s @ [PreventDefault, StopPropagation] \<rparr> else s);
          s1 = setTouched (map (\<lambda>field. (field, True)) (keysOf (fieldsByPath s0))) s0
      in s1\<lparr> isSubmitting := True, submitCount := submitCount s1 + 1 \<rparr>)"

text \<open>\<open>submissionHandler\<close>: the two \<open>then\<close> after \<open>validate()\<close>.  A rejection of
  \<open>validate()\<close> passes the first and is handled by the second.\<close>

definition submissionHandler ::
  "bool \<Rightarrow> 'r success_handler option \<Rightarrow> invalid_handler option \<Rightarrow> field_validator \<Rightarrow>
     schema option \<Rightarrow> bool \<Rightarrow> form_state \<Rightarrow> (js_error + 'r option) \<times> form_state" where
  "submissionHandler onlyControlled fn onValidationError fv schemaValue isEvent s =
     (case validate fv schemaValue None (submitStart isEvent s) of
        (Inl err, s3) \<Rightarrow> (Inl err, s3\<lparr> isSubmitting := False \<rparr>)
      | (Inr result, s3) \<Rightarrow>
          (case submissionBody onlyControlled fn onValidationError result s3 of
             (Inr returnVal, s4) \<Rightarrow> (Inr returnVal, s4\<lparr> isSubmitting := False \<rparr>)
           | (Inl err, s4) \<Rightarrow> (Inl err, s4\<lparr> isSubmitting := False \<rparr>)))"

definition handleSubmit ::
  "'r success_handler option \<Rightarrow> invalid_handler option \<Rightarrow> field_validator \<Rightarrow>
     schema option \<Rightarrow> bool \<Rightarrow> form_state \<Rightarrow> (js_error + 'r option) \<times> form_state" where
  "handleSubmit = submissionHandler False"

definition handleSubmit_withControlled ::
  "'r success_handler option \<Rightarrow> invalid_handler option \<Rightarrow> field_validator \<Rightarrow>
     schema option \<Rightarrow> bool \<Rightarrow> form_state \<Rightarrow> (js_error + 'r option) \<times> form_state" where
  "handleSubmit_withControlled = submissionHandler True"

subsection \<open>Notions of the statements, and example forms\<close>

text \<open>What an error setter leaves at the path it writes: no entry for a falsy message,
  the normalized list for a truthy one.\<close>

definition storedEntry :: "message \<Rightarrow> string list option" where
  "storedEntry m = (if truthy m then Some (normalizeErrorItem m) else None)"

definition noOptions :: form_options where
  "noOptions = \<lparr> opt_initialValues = None, opt_initialErrors = None, opt_cast = None \<rparr>"

text \<open>A text input named \<open>p\<close> that nobody has touched.\<close>

definition textField :: "path \<Rightarrow> field" where
  "textField p =
     \<lparr> name = p,
       meta = \<lparr> touched = False, pending = False, valid = True, validated = False \<rparr>,
       type_tag = None,
       uncheckedValue = JUndefined \<rparr>"

text \<open>Field objects: 0 is named \<open>email\<close>, 1 and 2 are named \<open>colors\<close>, 3 is named
  \<open>a[0]\<close>, the others \<open>agree\<close>.\<close>

definition exampleFields :: "field_id \<Rightarrow> field" where
  "exampleFields i =
     textField (if i = 0 then ''email''
                else if i = 1 \<or> i = 2 then ''colors''
                else if i = 3 then ''a[0]''
                else ''agree'')"

definition emptyForm :: form_state where
  "emptyForm = useForm noOptions exampleFields"

text \<open>A validator that finds every value valid and marks the field validated.\<close>

definition acceptAll :: field_validator where
  "acceptAll f opts s =
     (\<lparr> vr_valid = True, vr_errors = [] \<rparr>, updateMeta (\<lambda>m. m\<lparr> validated := True \<rparr>) f s)"

text \<open>A success callback that throws, and one that returns.\<close>

definition throwing :: "string success_handler" where
  "throwing submitted controlled s = (Inl (Thrown ''boom''), s)"

definition returning :: "string success_handler" where
  "returning submitted controlled s = (Inr ''sent'', s)"


text \<open>The form after the two checkboxes have registered.\<close>

definition colorsForm :: form_state where
  "colorsForm = registerField acceptAll 2 (registerField acceptAll 1 emptyForm)"

text \<open>The paths at which \<open>setFieldValue\<close> looks at a checkbox.\<close>

definition isCheckboxPath :: "form_state \<Rightarrow> path \<Rightarrow> bool" where
  "isCheckboxPath s p =
     (case map_of (fieldsByPath s) p of
        None \<Rightarrow> False
      | Some (Group fs) \<Rightarrow> firstType (fieldObjects s) fs = Some ''checkbox''
      | Some (Single f) \<Rightarrow> type_tag (fieldObjects s f) = Some ''checkbox'')"

text \<open>A form made with initial values for \<open>name\<close>, in which the field \<open>email\<close> mounts later
  and stages its own initial value.\<close>

definition nameOptions :: form_options where
  "nameOptions =
     \<lparr> opt_initialValues = Some [(''name'', JStr ''Ada'')], opt_initialErrors = None,
       opt_cast = None \<rparr>"

definition lateForm :: form_state where
  "lateForm = stageInitialValue nameOptions ''email'' (JStr ''a@b.com'') True
                (registerField acceptAll 0 (useForm nameOptions exampleFields))"

text \<open>A form made with an initial value for \<open>email\<close>, and its field.\<close>

definition emailOptions :: form_options where
  "emailOptions =
     \<lparr> opt_initialValues = Some [(''email'', JStr ''a@b.com'')], opt_initialErrors = None,
       opt_cast = None \<rparr>"

definition emailForm :: form_state where
  "emailForm = registerField acceptAll 0 (useForm emailOptions exampleFields)"

definition pickNew :: "jsval \<Rightarrow> jsval \<Rightarrow> jsval \<Rightarrow> jsval" where
  "pickNew cur v unchecked = v"

text \<open>A validator that requires a value at the path the field is named by, and reports
  its messages as the field's error state.\<close>

definition requireValue :: field_validator where
  "requireValue f opts s =
     (let p = name (fieldObjects s f);
          errs = (if falsy (getFromPath (formValues s) p) then [''required''] else [])
      in (\<lparr> vr_valid = (errs = []), vr_errors = errs \<rparr>,
          field_setState_errors errs f
            (updateMeta (\<lambda>m. m\<lparr> validated := True, valid := (errs = []) \<rparr>) f s)))"

text \<open>A form with the field 3 at \<open>a[0]\<close>, holding an empty value and the error of it;
  and the same form when the name of the field has just changed to \<open>a[1]\<close>.\<close>

definition listForm :: form_state where
  "listForm =
     snd (validateField requireValue ''a[0]''
       (stageInitialValue noOptions ''a[0]'' (JStr '''') True
         (registerField requireValue 3 emptyForm)))"

definition renamedForm :: form_state where
  "renamedForm = nameChanged 3 ''a[1]'' listForm"

text \<open>A validator that reports its messages as the error state of the field it validates
  (the field contract of the spec: the result of a validation is pushed into the field's
  error state): it sets the error-bag entry of the field's name to its messages, and
  leaves the other entries and the names of the fields alone.\<close>

definition reportsAsErrorState :: "field_validator \<Rightarrow> bool" where
  "reportsAsErrorState fv =
     (\<forall>f opts t.
        map_of (errorBag (snd (fv f opts t))) (name (fieldObjects t f)) =
          Some (vr_errors (fst (fv f opts t)))
        \<and> (\<forall>q. q \<noteq> name (fieldObjects t f) \<longrightarrow>
              map_of (errorBag (snd (fv f opts t))) q = map_of (errorBag t) q)
        \<and> (\<forall>g. name (fieldObjects (snd (fv f opts t)) g) = name (fieldObjects t g)))"

text \<open>A form with the field 3 at \<open>a[0]\<close>, after \<open>setFieldError('a[0]', [''])\<close>.\<close>

definition blankForm :: form_state where
  "blankForm = setFieldError ''a[0]'' (MArr ['''']) (registerField requireValue 3 emptyForm)"

text \<open>A form with the field 3 at \<open>a[0]\<close>, in which the list has the value \<open>x\<close> at \<open>a[1]\<close>,
  after \<open>setFieldError('a[0]', 'taken')\<close>.\<close>

definition takenForm :: form_state where
  "takenForm =
     setFieldError ''a[0]'' (MStr ''taken'')
       (stageInitialValue noOptions ''a[1]'' (JStr ''x'') True
         (registerField requireValue 3 emptyForm))"

text \<open>The fields registered at a path.\<close>

definition membersAt :: "registry \<Rightarrow> path \<Rightarrow> field_id list" where
  "membersAt reg p = (case map_of reg p of None \<Rightarrow> [] | Some e \<Rightarrow> members e)"

text \<open>Every registered field is named by the path it is registered at, as
  \<open>registerField\<close> leaves it.\<close>

definition namesConsistent :: "form_state \<Rightarrow> bool" where
  "namesConsistent s =
     list_all (\<lambda>pe. list_all (\<lambda>f. name (fieldObjects s f) = fst pe) (members (snd pe)))
       (fieldsByPath s)"


text \<open>A schema that requires \<open>email\<close> to be non-empty and \<open>agree\<close> to be true.\<close>

definition exampleSchema :: schema where
  "exampleSchema s =
     (let emailErrs = (if falsy (getFromPath (formValues s) ''email'')
                       then [''email is required''] else []);
          agreeErrs = (if getFromPath (formValues s) ''agree'' = JBool True
                       then [] else [''must agree''])
      in \<lparr> fr_valid = (emailErrs = [] \<and> agreeErrs = []),
           fr_results = [(''email'', \<lparr> vr_valid = (emailErrs = []), vr_errors = emailErrs \<rparr>),
                         (''agree'', \<lparr> vr_valid = (agreeErrs = []), vr_errors = agreeErrs \<rparr>)],
           fr_errors = map (\<lambda>m. (''email'', m)) (take 1 emailErrs)
                       @ map (\<lambda>m. (''agree'', m)) (take 1 agreeErrs),
           fr_values = None \<rparr>)"

text \<open>A form in which only the field of \<open>email\<close> has registered.\<close>

definition schemaForm :: form_state where
  "schemaForm = registerField acceptAll 0 emptyForm"

text \<open>A form with no field, after \<open>setFieldError('email', [])\<close>.\<close>

definition emptyEntryForm :: form_state where
  "emptyEntryForm = setFieldError ''email'' (MArr []) emptyForm"

text \<open>The union of paths in the words of the spec, to be compared with \<open>reconcilePaths\<close>:
  "schema result paths, currently registered field paths, currently non-empty error-bag
  paths".\<close>

definition claimedPaths :: "form_result \<Rightarrow> form_state \<Rightarrow> path list" where
  "claimedPaths formResult s =
     uniq (keysOf (fr_results formResult) @ keysOf (fieldsByPath s)
           @ filter (\<lambda>p. messagesAt (errorBag s) p \<noteq> []) (keysOf (errorBag s)))"

text \<open>The form with the field of \<open>email\<close> when the name of the field has just changed to
  \<open>zip\<close> and the watcher has not run yet, after \<open>setFieldError('zip', [])\<close>.\<close>

definition staleForm :: form_state where
  "staleForm = setFieldError ''zip'' (MArr []) (nameChanged 0 ''zip'' schemaForm)"

text \<open>A form with no field, after \<open>setFieldError('constructor', 'bad')\<close>.\<close>

definition inheritedEntryForm :: form_state where
  "inheritedEntryForm = setFieldError ''constructor'' (MStr ''bad'') emptyForm"

text \<open>A schema that requires the items \<open>a[0]\<close> and \<open>a[1]\<close> of a list to be non-empty.\<close>

definition itemsSchema :: schema where
  "itemsSchema s =
     (let errs = (\<lambda>p. if falsy (getFromPath (formValues s) p) then [''required''] else [])
      in \<lparr> fr_valid = (errs ''a[0]'' = [] \<and> errs ''a[1]'' = []),
           fr_results = [(''a[0]'', \<lparr> vr_valid = (errs ''a[0]'' = []), vr_errors = errs ''a[0]'' \<rparr>),
                         (''a[1]'', \<lparr> vr_valid = (errs ''a[1]'' = []), vr_errors = errs ''a[1]'' \<rparr>)],
           fr_errors = map (\<lambda>m. (''a[0]'', m)) (take 1 (errs ''a[0]''))
                       @ map (\<lambda>m. (''a[1]'', m)) (take 1 (errs ''a[1]'')),
           fr_values = None \<rparr>)"

text \<open>A validator that validates through \<open>validateSchema\<close> of the form context, in
  \<open>validated-only\<close> mode unless it is called with a mode: it marks the field validated,
  runs the schema and gives the result of the field's path, the trivially valid one when
  the schema has none.\<close>

definition viaSchema :: "schema \<Rightarrow> field_validator" where
  "viaSchema sch f opts s =
     (case validateSchema (Some sch) (case opts of Some m \<Rightarrow> m | None \<Rightarrow> ValidatedOnly)
             (updateMeta (\<lambda>m. m\<lparr> validated := True \<rparr>) f s) of
        (Inr formResult, s') \<Rightarrow>
          ((case map_of (fr_results formResult) (name (fieldObjects s f)) of
              Some r \<Rightarrow> r
            | None \<Rightarrow> \<lparr> vr_valid = True, vr_errors = [] \<rparr>), s')
      | (Inl err, s') \<Rightarrow> (\<lparr> vr_valid = True, vr_errors = [] \<rparr>, s'))"



section \<open>Properties\<close>

subsection \<open>Error bag\<close>

lemma map_of_setFieldErrorBag:
  "map_of (setFieldErrorBag p m bag) q =
     (if q = p then (if truthy m then Some (normalizeErrorItem m) else None)
      else map_of bag q)"
  by (simp add: setFieldErrorBag_def AList.update_conv' AList.delete_conv')

lemma map_of_foldl_setErrorBag:
  "map_of (foldl (\<lambda>acc key.
              (case map_of flds key of
                 Some message \<Rightarrow>
                   if truthy message then AList.update key (normalizeErrorItem message) acc
                   else acc
               | None \<Rightarrow> acc)) acc ks) q =
   (if q \<in> set ks \<and> (\<exists>m. map_of flds q = Some m \<and> truthy m)
    then Some (normalizeErrorItem (the (map_of flds q))) else map_of acc q)"
  by (induction ks arbitrary: acc) (auto simp: AList.update_conv' split: option.splits)

lemma map_of_setErrorBag:
  "map_of (setErrorBag flds) q =
     (case map_of flds q of Some m \<Rightarrow> storedEntry m | None \<Rightarrow> None)"
  unfolding setErrorBag_def map_of_foldl_setErrorBag keysOf_def storedEntry_def
  by (auto split: option.splits simp: map_of_eq_None_iff dest!: map_of_SomeD intro: rev_image_eqI)

lemma map_of_foldl_errors:
  "map_of (foldl (\<lambda>acc key.
              (case map_of bag key of
                 Some (m # ms) \<Rightarrow> AList.update key m acc
               | _ \<Rightarrow> acc)) acc ks) q =
   (if q \<in> set ks \<and> (\<exists>m ms. map_of bag q = Some (m # ms))
    then Some (hd (the (map_of bag q))) else map_of acc q)"
  by (induction ks arbitrary: acc) (auto simp: AList.update_conv' split: option.splits list.splits)

lemma map_of_errors:
  "map_of (errors bag) q = (case map_of bag q of Some (m # ms) \<Rightarrow> Some m | _ \<Rightarrow> None)"
  unfolding errors_def map_of_foldl_errors keysOf_def
  by (auto split: option.splits list.splits simp: map_of_eq_None_iff dest!: map_of_SomeD
      intro: rev_image_eqI)

lemma storedEntry_cases:
  "storedEntry MUndefined = None"
  "storedEntry (MStr []) = None"
  "storedEntry (MStr (c # cs)) = Some [c # cs]"
  "storedEntry (MArr xs) = Some xs"
  by (simp_all add: storedEntry_def)

text \<open>
  C8, as the claim has it, fails: setting the messages of a path to the empty list does
  not remove the entry of the path.  \<open>setFieldErrorBag\<close> deletes on \<open>!message\<close>, and an
  empty array is truthy, so the entry stays, with no message in it.
\<close>

theorem C8_empty_list_keeps_entry:
  "setFieldErrorBag ''email'' (MArr []) [(''email'', [''required''])] = [(''email'', [])]"
  by (simp add: setFieldErrorBag_def)

text \<open>
  C8, amended.  Every error-setting operation leaves at a path it writes an ordered list
  of messages: \<open>setFieldErrorBag\<close> changes the entry of its path only, and both it and
  \<open>setErrorBag\<close> leave no entry for \<open>undefined\<close> and for the empty string, the list \<open>[s]\<close>
  for a non-empty string \<open>s\<close>, and a list as it is, the empty list too.  The first-error
  map \<open>errors\<close> has an entry, the first message, for exactly the paths whose list is not
  empty.
\<close>

theorem C8_error_bag_entries:
  "map_of (setFieldErrorBag p m bag) q = (if q = p then storedEntry m else map_of bag q)
   \<and> map_of (setErrorBag flds) q = (case map_of flds q of Some m' \<Rightarrow> storedEntry m' | None \<Rightarrow> None)
   \<and> storedEntry MUndefined = None
   \<and> storedEntry (MStr []) = None
   \<and> storedEntry (MStr (c # cs)) = Some [c # cs]
   \<and> storedEntry (MArr xs) = Some xs
   \<and> map_of (errors bag) q = (case map_of bag q of Some (x # rest) \<Rightarrow> Some x | _ \<Rightarrow> None)"
  by (simp add: map_of_setFieldErrorBag map_of_setErrorBag map_of_errors storedEntry_cases
      storedEntry_def)

text \<open>
  C9, as the claim has it, fails for the same reason: \<open>setErrors\<close> keeps a path that is
  mapped to the empty list, so the bag does not hold the non-empty entries only.
\<close>

theorem C9_setErrors_keeps_empty_list:
  "errorBag (setErrors [(''email'', MArr [])] emptyForm) = [(''email'', [])]"
  by (simp add: setErrors_def setErrorBag_def keysOf_def)

text \<open>
  C9, amended.  \<open>setErrors(fields)\<close> replaces the error bag: whatever the bag held before,
  afterwards the entry of a path is what \<open>fields\<close> gives it: no entry for a path that
  \<open>fields\<close> does not mention or maps to \<open>undefined\<close> or the empty string, the normalized
  list otherwise (an empty list stays as an empty entry).  So the messages held at a path
  are the normalized messages of \<open>fields\<close> at that path, and none for the other paths.
  \<open>setFieldError\<close> leaves the entries of all other paths as they were.
\<close>

theorem C9_setErrors_replaces:
  "map_of (errorBag (setErrors flds s)) q =
     (case map_of flds q of Some m \<Rightarrow> storedEntry m | None \<Rightarrow> None)
   \<and> messagesAt (errorBag (setErrors flds s)) q =
     (case map_of flds q of Some m \<Rightarrow> normalizeErrorItem m | None \<Rightarrow> [])
   \<and> (q \<noteq> p \<longrightarrow> map_of (errorBag (setFieldError p m' s)) q = map_of (errorBag s) q)"
proof -
  have bag: "errorBag (setErrors flds s) = setErrorBag flds"
    by (simp add: setErrors_def)
  have held: "messagesAt (setErrorBag flds) q =
     (case map_of flds q of Some m \<Rightarrow> normalizeErrorItem m | None \<Rightarrow> [])"
  proof (cases "map_of flds q")
    case None
    then show ?thesis by (simp add: messagesAt_def map_of_setErrorBag)
  next
    case (Some m)
    then show ?thesis
      by (cases m) (simp_all add: messagesAt_def map_of_setErrorBag storedEntry_def)
  qed
  have other: "q \<noteq> p \<longrightarrow> map_of (errorBag (setFieldError p m' s)) q = map_of (errorBag s) q"
    by (simp add: setFieldError_def map_of_setFieldErrorBag)
  show ?thesis using bag held other by (simp add: map_of_setErrorBag)
qed

theorem C9_setErrors_replaces_witness:
  "map_of (errorBag (setErrors [(''email'', MStr ''required'')]
       (setFieldError ''agree'' (MStr ''must agree'') emptyForm))) ''agree'' = None
   \<and> messagesAt (errorBag (setErrors [(''email'', MStr ''required'')]
       (setFieldError ''agree'' (MStr ''must agree'') emptyForm))) ''email'' = [''required'']
   \<and> ''agree'' \<noteq> ''email''
   \<and> map_of (errorBag (setFieldError ''email'' (MStr ''required'')
       (setFieldError ''agree'' (MStr ''must agree'') emptyForm))) ''agree'' = Some [''must agree'']"
proof -
  let ?s = "setFieldError ''agree'' (MStr ''must agree'') emptyForm"
  have ne: "''agree'' \<noteq> ''email''" by simp
  have before: "map_of (errorBag ?s) ''agree'' = Some [''must agree'']"
    by (simp add: setFieldError_def map_of_setFieldErrorBag)
  from C9_setErrors_replaces [of "[(''email'', MStr ''required'')]" ?s "''agree''" "''email''" "MStr ''required''"]
       C9_setErrors_replaces [of "[(''email'', MStr ''required'')]" ?s "''email''" "''email''" "MStr ''required''"]
       ne before
  show ?thesis by simp
qed

subsection \<open>Meta aggregation\<close>

text \<open>
  C10.  When no field is registered, the aggregated flags are \<open>touched = false\<close> and
  \<open>pending = false\<close>, the \<open>every\<close> merge for \<open>valid\<close> is true, and the exposed \<open>valid\<close> of
  the form is exactly "the first-error map is empty".
\<close>

theorem C10_meta_without_fields:
  assumes "allFields (fieldsByPath s) = []"
  shows "calculateFlags (fieldsByPath s) (fieldObjects s) = (False, False, True)
         \<and> form_touched (formMeta s) = False
         \<and> form_pending (formMeta s) = False
         \<and> form_valid (formMeta s) = (errors (errorBag s) = [])"
  using assms by (simp add: formMeta_def useFormMeta_def calculateFlags_def keysOf_def)

theorem C10_meta_without_fields_witness:
  "allFields (fieldsByPath (setFieldError ''email'' (MStr ''required'') emptyForm)) = []
   \<and> form_touched (formMeta (setFieldError ''email'' (MStr ''required'') emptyForm)) = False
   \<and> form_pending (formMeta (setFieldError ''email'' (MStr ''required'') emptyForm)) = False
   \<and> form_valid (formMeta (setFieldError ''email'' (MStr ''required'') emptyForm)) = False
   \<and> form_valid (formMeta emptyForm) = True"
proof -
  let ?s = "setFieldError ''email'' (MStr ''required'') emptyForm"
  have h: "allFields (fieldsByPath ?s) = []"
    by (simp add: setFieldError_def emptyForm_def useForm_def allFields_def)
  have h0: "allFields (fieldsByPath emptyForm) = []"
    by (simp add: emptyForm_def useForm_def allFields_def)
  have e: "errors (errorBag ?s) \<noteq> []"
    by (simp add: setFieldError_def emptyForm_def useForm_def noOptions_def setFieldErrorBag_def
        errors_def keysOf_def)
  have e0: "errors (errorBag emptyForm) = []"
    by (simp add: emptyForm_def useForm_def noOptions_def errors_def keysOf_def)
  from C10_meta_without_fields [OF h] C10_meta_without_fields [OF h0] h e e0
  show ?thesis by simp
qed

subsection \<open>Path registry\<close>

lemma map_of_insertFieldAtPath:
  "map_of (insertFieldAtPath f p reg) q =
     (if q = p
      then (case map_of reg p of
              None \<Rightarrow> Some (Single f)
            | Some (Single f0) \<Rightarrow> Some (Group [f0, f])
            | Some (Group fs) \<Rightarrow> Some (Group (fs @ [f])))
      else map_of reg q)"
  by (simp add: insertFieldAtPath_def AList.update_conv' split: option.splits entry.splits)

lemma map_of_removeFieldFromPath:
  "map_of (removeFieldFromPath f p reg) q =
     (if q = p
      then (case map_of reg p of
              None \<Rightarrow> None
            | Some (Single f0) \<Rightarrow> if f = f0 then None else Some (Single f0)
            | Some (Group fs) \<Rightarrow>
                if f \<in> set fs
                then (if remove1 f fs = [] then None else Some (Group (remove1 f fs)))
                else Some (Group fs))
      else map_of reg q)"
  by (simp add: removeFieldFromPath_def AList.update_conv' AList.delete_conv'
      split: option.splits entry.splits)




subsection \<open>Submission\<close>

lemma validate_emptyForm:
  "validate acceptAll None None (submitStart True emptyForm) =
    (Inr \<lparr> fr_valid = True, fr_results = [], fr_errors = [], fr_values = None \<rparr>,
     submitStart True emptyForm)"
  by (simp add: validate_def submitStart_def emptyForm_def useForm_def mutateAllFields_def
      setTouched_def keysOf_def)

text \<open>
  C4.  Whatever a handler made by \<open>handleSubmit\<close> runs into, \<open>isSubmitting\<close> is false when
  its promise settles.  With \<open>result\<close> what \<open>validate()\<close> resolved to: when the form is
  valid and the success callback throws, the handler rejects with what was thrown
  (nothing is swallowed); when it returns, the handler resolves with its value; when the
  form is not valid, the handler resolves with \<open>undefined\<close>, or rejects with what the
  invalid-submission callback threw; in each case the state is the one the callback left,
  with \<open>isSubmitting\<close> reset.  And when \<open>validate()\<close> itself rejects, the handler rejects
  with the same error, with \<open>isSubmitting\<close> reset.
\<close>

theorem C4_submit_resets_and_rethrows:
  "isSubmitting (snd (submissionHandler oc fn onInv fv sch ev s)) = False
   \<and> (validate fv sch None (submitStart ev s) = (Inr result, s3) \<longrightarrow>
        (fr_valid result \<and> fn = Some f
           \<and> f (submittedValues oc result s3) (deepCopy (controlledValues s3)) s3 = (Inl err, s4) \<longrightarrow>
         submissionHandler oc fn onInv fv sch ev s = (Inl err, s4\<lparr> isSubmitting := False \<rparr>))
      \<and> (fr_valid result \<and> fn = Some f
           \<and> f (submittedValues oc result s3) (deepCopy (controlledValues s3)) s3 = (Inr r, s4) \<longrightarrow>
         submissionHandler oc fn onInv fv sch ev s = (Inr (Some r), s4\<lparr> isSubmitting := False \<rparr>))
      \<and> (\<not> fr_valid result \<and> onInv = Some g
           \<and> g \<lparr> inv_values = deepCopy (formValues s3), inv_errors = fr_errors result,
                  inv_results = fr_results result \<rparr> s3 = (Inl err, s4) \<longrightarrow>
         submissionHandler oc fn onInv fv sch ev s = (Inl err, s4\<lparr> isSubmitting := False \<rparr>))
      \<and> (\<not> fr_valid result \<and> onInv = Some g
           \<and> g \<lparr> inv_values = deepCopy (formValues s3), inv_errors = fr_errors result,
                  inv_results = fr_results result \<rparr> s3 = (Inr u, s4) \<longrightarrow>
         submissionHandler oc fn onInv fv sch ev s = (Inr None, s4\<lparr> isSubmitting := False \<rparr>))
      \<and> ((fr_valid result \<and> fn = None) \<or> (\<not> fr_valid result \<and> onInv = None) \<longrightarrow>
         submissionHandler oc fn onInv fv sch ev s = (Inr None, s3\<lparr> isSubmitting := False \<rparr>)))
   \<and> (validate fv sch None (submitStart ev s) = (Inl err, s3) \<longrightarrow>
        submissionHandler oc fn onInv fv sch ev s = (Inl err, s3\<lparr> isSubmitting := False \<rparr>))"
  by (auto simp: submissionHandler_def submissionBody_def
      split: prod.splits sum.splits option.splits bool.splits)

theorem C4_submit_resets_and_rethrows_witness:
  "isSubmitting (submitStart True emptyForm) = True
   \<and> handleSubmit (Some throwing) None acceptAll None True emptyForm =
       (Inl (Thrown ''boom''), (submitStart True emptyForm)\<lparr> isSubmitting := False \<rparr>)
   \<and> isSubmitting (snd (handleSubmit (Some throwing) None acceptAll None True emptyForm)) = False
   \<and> handleSubmit (Some returning) None acceptAll None True emptyForm =
       (Inr (Some ''sent''), (submitStart True emptyForm)\<lparr> isSubmitting := False \<rparr>)"
proof -
  let ?res = "\<lparr> fr_valid = True, fr_results = [], fr_errors = [], fr_values = None \<rparr>"
  let ?s3 = "submitStart True emptyForm"
  have st: "isSubmitting ?s3 = True"
    by (simp add: submitStart_def Let_def)
  have th: "throwing (submittedValues False ?res ?s3) (deepCopy (controlledValues ?s3)) ?s3 =
      (Inl (Thrown ''boom''), ?s3)"
    by (simp add: throwing_def)
  have re: "returning (submittedValues False ?res ?s3) (deepCopy (controlledValues ?s3)) ?s3 =
      (Inr ''sent'', ?s3)"
    by (simp add: returning_def)
  from C4_submit_resets_and_rethrows [where oc = False and fn = "Some throwing" and onInv = None
         and fv = acceptAll and sch = None and ev = True and s = emptyForm and result = ?res
         and ?s3.0 = ?s3 and f = throwing and err = "Thrown ''boom''" and ?s4.0 = ?s3]
       C4_submit_resets_and_rethrows [where oc = False and fn = "Some returning" and onInv = None
         and fv = acceptAll and sch = None and ev = True and s = emptyForm and result = ?res
         and ?s3.0 = ?s3 and f = returning and r = "''sent''" and ?s4.0 = ?s3]
       validate_emptyForm st th re
  show ?thesis by (simp add: handleSubmit_def)
qed

subsection \<open>Single-field validation\<close>

lemma trace_callValidate:
  "trace (snd (callValidate fv f opts s)) = trace s @ [ValidateCall f]"
  by (simp add: callValidate_def case_prod_beta)

lemma fst_callValidate: "fst (callValidate fv f opts s) = fst (fv f opts s)"
  by (simp add: callValidate_def case_prod_beta)

lemma trace_mapValidate:
  "trace (snd (mapValidate fv fs s)) = trace s @ map ValidateCall fs"
  by (induction fs arbitrary: s) (simp_all add: case_prod_beta trace_callValidate)

lemma fst_mapValidate_Cons:
  "fst (mapValidate fv (f # fs) s) =
     fst (fv f None s) # fst (mapValidate fv fs (snd (callValidate fv f None s)))"
  by (simp add: case_prod_beta fst_callValidate)

lemma colorsForm_registry: "fieldsByPath colorsForm = [(''colors'', Group [1, 2])]"
  by (simp add: colorsForm_def registerField_def emptyForm_def useForm_def noOptions_def
      exampleFields_def textField_def insertFieldAtPath_def errorMessage_def messagesAt_def
      Let_def)

text \<open>
  C5, as the claim has it, fails for a group: \<open>validateField\<close> does not validate the first
  member only.  \<open>fieldInstance.map(f => f.validate())[0]\<close> calls \<open>validate\<close> on every
  member and gives the first result: with two checkboxes at \<open>colors\<close> the second one is
  validated too.
\<close>

theorem C5_group_validates_every_member:
  "fieldsByPath colorsForm = [(''colors'', Group [1, 2])]
   \<and> trace (snd (validateField acceptAll ''colors'' colorsForm)) =
       trace colorsForm @ [ValidateCall 1, ValidateCall 2]
   \<and> validated (meta (fieldObjects colorsForm 2)) = False
   \<and> validated (meta (fieldObjects (snd (validateField acceptAll ''colors'' colorsForm)) 2)) = True"
  apply (simp add: validateField_def colorsForm_registry callValidate_def acceptAll_def
      updateMeta_def)
  apply (simp add: colorsForm_def registerField_def emptyForm_def useForm_def noOptions_def
      exampleFields_def textField_def insertFieldAtPath_def errorMessage_def messagesAt_def
      Let_def)
  done

text \<open>
  The lookup of \<open>validateField\<close> goes on to \<open>Object.prototype\<close>: at a path with no field
  that names one of its members, \<open>constructor\<close> say, the code finds the inherited member,
  logs no warning and calls its \<open>validate\<close>, which is no function; the promise rejects
  with a \<open>TypeError\<close>.
\<close>

lemma validateField_inherited_member:
  "map_of (fieldsByPath colorsForm) ''constructor'' = None
   \<and> validateField acceptAll ''constructor'' colorsForm = (Inl TypeError, colorsForm)"
  by (simp add: validateField_def colorsForm_registry objectPrototypeKeys_def)

text \<open>
  C5, amended.  \<open>validateField(path)\<close>: when no field is registered at the path and the
  path does not name a member of \<open>Object.prototype\<close>, it logs the warning and returns the
  trivially valid result \<open>{valid: true, errors: []}\<close>, with nothing thrown and nothing
  else changed; when the path holds a single field it validates that field and returns
  its result; when the path holds a group it calls \<open>validate\<close> on every member, in order,
  and returns the result of the first member.
\<close>

theorem C5_validateField:
  "(map_of (fieldsByPath s) p = None \<and> p \<notin> set objectPrototypeKeys \<longrightarrow>
      validateField fv p s =
        (Inr (Some \<lparr> vr_valid = True, vr_errors = [] \<rparr>),
         s\<lparr> trace := trace s @ [Warn (''field with name '' @ p @ '' was not found'')] \<rparr>))
   \<and> (map_of (fieldsByPath s) p = Some (Single f) \<longrightarrow>
      fst (validateField fv p s) = Inr (Some (fst (fv f None s)))
      \<and> trace (snd (validateField fv p s)) = trace s @ [ValidateCall f])
   \<and> (map_of (fieldsByPath s) p = Some (Group (f # fs)) \<longrightarrow>
      fst (validateField fv p s) = Inr (Some (fst (fv f None s)))
      \<and> trace (snd (validateField fv p s)) = trace s @ map ValidateCall (f # fs))"
proof -
  have g: "map_of (fieldsByPath s) p = Some (Group (f # fs)) \<Longrightarrow>
      fst (validateField fv p s) = Inr (Some (fst (fv f None s)))
      \<and> trace (snd (validateField fv p s)) = trace s @ map ValidateCall (f # fs)"
    using trace_mapValidate [of fv "f # fs" s] fst_mapValidate_Cons [of fv f fs s]
    by (simp add: validateField_def case_prod_beta del: mapValidate.simps)
  have sg: "map_of (fieldsByPath s) p = Some (Single f) \<Longrightarrow>
      fst (validateField fv p s) = Inr (Some (fst (fv f None s)))
      \<and> trace (snd (validateField fv p s)) = trace s @ [ValidateCall f]"
    using trace_callValidate [of fv f None s] fst_callValidate [of fv f None s]
    by (simp add: validateField_def case_prod_beta)
  show ?thesis using g sg by (simp add: validateField_def)
qed

theorem C5_validateField_witness:
  "map_of (fieldsByPath colorsForm) ''zip'' = None
   \<and> ''zip'' \<notin> set objectPrototypeKeys
   \<and> validateField acceptAll ''zip'' colorsForm =
       (Inr (Some \<lparr> vr_valid = True, vr_errors = [] \<rparr>),
        colorsForm\<lparr> trace := trace colorsForm @ [Warn ''field with name zip was not found''] \<rparr>)
   \<and> map_of (fieldsByPath colorsForm) ''colors'' = Some (Group [1, 2])
   \<and> fst (validateField acceptAll ''colors'' colorsForm) =
       Inr (Some \<lparr> vr_valid = True, vr_errors = [] \<rparr>)
   \<and> trace (snd (validateField acceptAll ''colors'' colorsForm)) =
       trace colorsForm @ [ValidateCall 1, ValidateCall 2]"
proof -
  have z: "map_of (fieldsByPath colorsForm) ''zip'' = None"
    by (simp add: colorsForm_registry)
  have pz: "''zip'' \<notin> set objectPrototypeKeys"
    by (simp add: objectPrototypeKeys_def)
  have c: "map_of (fieldsByPath colorsForm) ''colors'' = Some (Group [1, 2])"
    by (simp add: colorsForm_registry)
  from C5_validateField [of colorsForm "''zip''" acceptAll]
       C5_validateField [of colorsForm "''colors''" acceptAll 1 "[2]"] z pz c
  show ?thesis by (simp add: acceptAll_def)
qed

subsection \<open>Dirty\<close>

lemma isEqual_iff: "isEqual a b \<longleftrightarrow> map_of a = map_of b"
proof
  assume e: "isEqual a b"
  show "map_of a = map_of b"
  proof
    fix k
    show "map_of a k = map_of b k"
    proof (cases "k \<in> set (map fst a)")
      case True
      then obtain v where kv: "(k, v) \<in> set a" by auto
      have "\<forall>x\<in>set a. map_of a (fst x) = map_of b (fst x)"
        using e by (simp add: isEqual_def keysOf_def list_all_iff)
      then show ?thesis using kv by force
    next
      case False
      moreover from False e have "k \<notin> set (map fst b)" by (simp add: isEqual_def keysOf_def)
      ultimately have "map_of a k = None" "map_of b k = None"
        by (simp_all add: map_of_eq_None_iff)
      then show ?thesis by simp
    qed
  qed
next
  assume m: "map_of a = map_of b"
  have "dom (map_of a) = dom (map_of b)" using m by simp
  then have "set (map fst a) = set (map fst b)" by (simp add: dom_map_of_conv_image_fst)
  then show "isEqual a b" using m by (simp add: isEqual_def keysOf_def list_all_iff)
qed

lemma setFieldValue_plain:
  "\<not> isCheckboxPath s p \<Longrightarrow>
   setFieldValue rn p v force s = s\<lparr> formValues := setInPath (formValues s) p v \<rparr>"
  by (simp add: isCheckboxPath_def setFieldValue_def deepCopy_def Let_def
      split: option.splits entry.splits)

lemma isCheckboxPath_formValues:
  "isCheckboxPath (s\<lparr> formValues := t \<rparr>) p = isCheckboxPath s p"
  by (simp add: isCheckboxPath_def split: option.splits entry.splits)

lemma lateForm_eq:
  "formValues lateForm = [(''name'', JStr ''Ada''), (''email'', JStr ''a@b.com'')]
  \<and> initialValues lateForm = [(''name'', JStr ''Ada''), (''email'', JStr ''a@b.com'')]
  \<and> originalInitialValues lateForm = [(''name'', JStr ''Ada'')]
  \<and> fieldsByPath lateForm = [(''email'', Single 0)]"
  by (simp add: lateForm_def stageInitialValue_def setFieldInitialValue_def nameOptions_def
      registerField_def useForm_def exampleFields_def textField_def insertFieldAtPath_def
      errorMessage_def messagesAt_def resolveInitialValues_def deepCopy_def setInPath_def Let_def)

lemma emailForm_eq:
  "formValues emailForm = [(''email'', JStr ''a@b.com'')]
  \<and> originalInitialValues emailForm = [(''email'', JStr ''a@b.com'')]
  \<and> fieldsByPath emailForm = [(''email'', Single 0)]
  \<and> type_tag (fieldObjects emailForm 0) = None"
  by (simp add: emailForm_def emailOptions_def
      registerField_def useForm_def exampleFields_def textField_def insertFieldAtPath_def
      errorMessage_def messagesAt_def resolveInitialValues_def deepCopy_def setInPath_def Let_def)

text \<open>
  C1, as the claim has it, fails: \<open>dirty\<close> does not compare the live values with the
  \<open>current\<close> initial snapshot.  In a form made with initial values, a field that mounts
  later stages its initial value in the live values and in the \<open>current\<close> snapshot, not in
  the \<open>original\<close> one: the live values equal the \<open>current\<close> snapshot and the form is
  dirty, and it stays dirty when the field's value is changed and then restored to its
  current initial value.
\<close>

theorem C1_dirty_ignores_current_snapshot:
  "isEqual (formValues lateForm) (initialValues lateForm)
   \<and> dirty (formMeta lateForm)
   \<and> getFromPath (initialValues lateForm) ''email'' = JStr ''a@b.com''
   \<and> dirty (formMeta (setFieldValue pickNew ''email'' (JStr ''a@b.com'') False
        (setFieldValue pickNew ''email'' (JStr ''other'') False lateForm)))"
  by (simp add: formMeta_def useFormMeta_def case_prod_beta lateForm_eq isEqual_def keysOf_def
      getFromPath_def setFieldValue_def Let_def setInPath_def deepCopy_def)

text \<open>
  C1, amended.  For every form state, \<open>dirty\<close> is true if and only if the live value tree
  is not deeply equal to the \<open>original\<close> initial-values snapshot, the one \<open>useForm\<close> hands
  to \<open>useFormMeta\<close>.  In particular, in a form that is not dirty, setting the value of a
  path that the original snapshot holds, and at which no checkbox is registered, makes
  the form dirty exactly when the value differs from the original one, and restoring the
  original initial value returns \<open>dirty\<close> to false.
\<close>

theorem C1_dirty_original_snapshot:
  "dirty (formMeta s) = (\<not> isEqual (formValues s) (originalInitialValues s))
   \<and> (\<not> dirty (formMeta s) \<and> \<not> isCheckboxPath s p
        \<and> map_of (originalInitialValues s) p = Some v0 \<longrightarrow>
        dirty (formMeta (setFieldValue rn p v force s)) = (v \<noteq> v0)
        \<and> dirty (formMeta (setFieldValue rn p v0 force' (setFieldValue rn p v force s))) = False)"
proof -
  have d: "\<And>s. dirty (formMeta s) = (\<not> isEqual (formValues s) (originalInitialValues s))"
    by (simp add: formMeta_def useFormMeta_def split: prod.splits)
  have r: "\<not> dirty (formMeta s) \<and> \<not> isCheckboxPath s p
        \<and> map_of (originalInitialValues s) p = Some v0 \<longrightarrow>
        dirty (formMeta (setFieldValue rn p v force s)) = (v \<noteq> v0)
        \<and> dirty (formMeta (setFieldValue rn p v0 force' (setFieldValue rn p v force s))) = False"
  proof (intro impI, elim conjE)
    assume nd: "\<not> dirty (formMeta s)" and nc: "\<not> isCheckboxPath s p"
      and o: "map_of (originalInitialValues s) p = Some v0"
    have eq: "map_of (formValues s) = map_of (originalInitialValues s)"
      using nd d [of s] by (simp add: isEqual_iff)
    have a: "dirty (formMeta (setFieldValue rn p v force s)) = (v \<noteq> v0)"
      using eq o
      by (auto simp: d setFieldValue_plain [OF nc] isEqual_iff setInPath_def AList.update_conv'
          fun_eq_iff)
    have b: "dirty (formMeta (setFieldValue rn p v0 force' (setFieldValue rn p v force s))) = False"
      using eq o nc
      by (auto simp: d setFieldValue_plain isCheckboxPath_formValues isEqual_iff setInPath_def
          AList.update_conv' fun_eq_iff)
    show "dirty (formMeta (setFieldValue rn p v force s)) = (v \<noteq> v0)
        \<and> dirty (formMeta (setFieldValue rn p v0 force' (setFieldValue rn p v force s))) = False"
      using a b by simp
  qed
  show ?thesis using d r by simp
qed

theorem C1_dirty_original_snapshot_witness:
  "\<not> dirty (formMeta emailForm)
   \<and> \<not> isCheckboxPath emailForm ''email''
   \<and> map_of (originalInitialValues emailForm) ''email'' = Some (JStr ''a@b.com'')
   \<and> dirty (formMeta (setFieldValue pickNew ''email'' (JStr ''other'') False emailForm))
   \<and> \<not> dirty (formMeta (setFieldValue pickNew ''email'' (JStr ''a@b.com'') False
          (setFieldValue pickNew ''email'' (JStr ''other'') False emailForm)))"
proof -
  have nd: "\<not> dirty (formMeta emailForm)"
    by (simp add: formMeta_def useFormMeta_def case_prod_beta emailForm_eq isEqual_def keysOf_def)
  have nc: "\<not> isCheckboxPath emailForm ''email''"
    by (simp add: isCheckboxPath_def emailForm_eq)
  have o: "map_of (originalInitialValues emailForm) ''email'' = Some (JStr ''a@b.com'')"
    by (simp add: emailForm_eq)
  from C1_dirty_original_snapshot [of emailForm "''email''" "JStr ''a@b.com''" pickNew
         "JStr ''other''" False False] nd nc o
  show ?thesis by simp
qed

subsection \<open>Renaming\<close>

lemma trace_validateField_registered:
  "map_of (fieldsByPath s) p = Some e \<Longrightarrow>
   trace (snd (validateField fv p s)) = trace s @ map ValidateCall (members e)"
  by (cases e) (simp_all add: validateField_def case_prod_beta trace_mapValidate trace_callValidate)

lemma reRegister_simps:
  "fieldsByPath (reRegister field newPath oldPath s) =
     insertFieldAtPath field newPath (removeFieldFromPath field oldPath (fieldsByPath s))"
  "errorBag (reRegister field newPath oldPath s) = errorBag s"
  "trace (reRegister field newPath oldPath s) = trace s"
  "formValues (reRegister field newPath oldPath s) = formValues s"
  by (simp_all add: reRegister_def Let_def)

lemma hasError_reRegister:
  "hasError p (reRegister field newPath oldPath s) = hasError p s"
  by (simp add: hasError_def reRegister_simps)

lemma errorBag_callValidate:
  "errorBag (snd (callValidate fv f opts s)) = errorBag (snd (fv f opts s))"
  "fieldObjects (snd (callValidate fv f opts s)) = fieldObjects (snd (fv f opts s))"
  by (simp_all add: callValidate_def case_prod_beta)

lemma mapValidate_reports:
  assumes rep: "reportsAsErrorState fv"
  shows "(\<forall>g\<in>set fs. name (fieldObjects s g) = p) \<Longrightarrow>
     (\<forall>q. q \<noteq> p \<longrightarrow> map_of (errorBag (snd (mapValidate fv fs s))) q = map_of (errorBag s) q)
     \<and> (fs \<noteq> [] \<longrightarrow> map_of (errorBag (snd (mapValidate fv fs s))) p =
           Some (vr_errors (last (fst (mapValidate fv fs s)))))
     \<and> (\<forall>g. name (fieldObjects (snd (mapValidate fv fs s)) g) = name (fieldObjects s g))"
proof (induction fs arbitrary: s)
  case Nil
  then show ?case by simp
next
  case (Cons f fs)
  let ?s1 = "snd (callValidate fv f None s)"
  have nf: "name (fieldObjects s f) = p" using Cons.prems by simp
  have r1: "\<And>f opts t. map_of (errorBag (snd (fv f opts t))) (name (fieldObjects t f)) =
          Some (vr_errors (fst (fv f opts t)))"
    and r2: "\<And>f opts t q. q \<noteq> name (fieldObjects t f) \<Longrightarrow>
          map_of (errorBag (snd (fv f opts t))) q = map_of (errorBag t) q"
    and r3: "\<And>f opts t g. name (fieldObjects (snd (fv f opts t)) g) = name (fieldObjects t g)"
    using rep unfolding reportsAsErrorState_def by blast+
  have own: "map_of (errorBag ?s1) p = Some (vr_errors (fst (fv f None s)))"
    using r1 [of f None s] nf by (simp add: errorBag_callValidate)
  have frame: "\<And>q. q \<noteq> p \<Longrightarrow> map_of (errorBag ?s1) q = map_of (errorBag s) q"
    using r2 [of _ s f None] nf by (simp add: errorBag_callValidate)
  have names: "\<And>g. name (fieldObjects ?s1 g) = name (fieldObjects s g)"
    using r3 [of f None s] by (simp add: errorBag_callValidate)
  have pre: "\<forall>g\<in>set fs. name (fieldObjects ?s1 g) = p"
    using Cons.prems names by simp
  note ih = Cons.IH [OF pre]
  have sn: "snd (mapValidate fv (f # fs) s) = snd (mapValidate fv fs ?s1)"
    by (simp add: case_prod_beta)
  have fs: "fst (mapValidate fv (f # fs) s) = fst (fv f None s) # fst (mapValidate fv fs ?s1)"
    by (rule fst_mapValidate_Cons)
  have len: "fs \<noteq> [] \<Longrightarrow> fst (mapValidate fv fs ?s1) \<noteq> []"
    by (cases fs) (simp_all add: case_prod_beta)
  show ?case
  proof (cases "fs = []")
    case True
    then show ?thesis using own frame names by (simp add: case_prod_beta fst_callValidate)
  next
    case False
    then show ?thesis using ih frame names len [OF False] unfolding sn fs by simp
  qed
qed

lemma validateField_registered:
  "map_of (fieldsByPath s) p = Some e \<Longrightarrow>
   snd (validateField fv p s) = snd (mapValidate fv (members e) s)"
  by (cases e) (simp_all add: validateField_def case_prod_beta)

lemma hasError_plain:
  "p \<notin> set objectPrototypeKeys \<Longrightarrow>
   hasError p s \<longleftrightarrow> (\<exists>m ms. map_of (errorBag s) p = Some (m # ms) \<and> m \<noteq> [])"
  by (auto simp: hasError_def map_of_errors split: option.splits list.splits)

lemma fieldExists_plain:
  "p \<notin> set objectPrototypeKeys \<Longrightarrow> fieldExists p s \<longleftrightarrow> map_of (fieldsByPath s) p \<noteq> None"
  by (simp add: fieldExists_def inheritedAt_def)

lemma listForm_eq:
  "fieldsByPath listForm = [(''a[0]'', Single 3)]
   \<and> errorBag listForm = [(''a[0]'', [''required''])]
   \<and> formValues listForm = [(''a[0]'', JStr [])]
   \<and> name (fieldObjects listForm 3) = ''a[0]''
   \<and> trace listForm = [ValidateCall 3]"
  by (simp add: listForm_def validateField_def callValidate_def requireValue_def
      stageInitialValue_def setFieldInitialValue_def registerField_def emptyForm_def useForm_def
      noOptions_def exampleFields_def textField_def insertFieldAtPath_def errorMessage_def
      messagesAt_def resolveInitialValues_def deepCopy_def setInPath_def getFromPath_def
      field_setState_errors_def updateMeta_def setFieldErrorBag_def Let_def)

lemma renameField_listForm:
  "renameField requireValue 3 ''a[1]'' listForm =
     nameWatch requireValue 3 ''a[1]'' ''a[0]'' renamedForm"
  by (simp add: renameField_def listForm_eq renamedForm_def nameChanged_def Let_def)

lemma renamedForm_eq:
  "fieldsByPath renamedForm = [(''a[0]'', Single 3)]
   \<and> errorBag renamedForm = [(''a[0]'', [''required''])]
   \<and> formValues renamedForm = [(''a[0]'', JStr [])]
   \<and> name (fieldObjects renamedForm 3) = ''a[1]''
   \<and> trace renamedForm = [ValidateCall 3]"
  by (simp add: renamedForm_def nameChanged_def listForm_eq)

lemma blankForm_eq:
  "fieldsByPath blankForm = [(''a[0]'', Single 3)]
   \<and> errorBag blankForm = [(''a[0]'', [''''])]
   \<and> formValues blankForm = []
   \<and> name (fieldObjects blankForm 3) = ''a[0]''
   \<and> trace blankForm = []"
  by (simp add: blankForm_def setFieldError_def setFieldErrorBag_def registerField_def
      emptyForm_def useForm_def noOptions_def exampleFields_def textField_def
      insertFieldAtPath_def errorMessage_def messagesAt_def resolveInitialValues_def
      deepCopy_def Let_def)

lemma takenForm_eq:
  "fieldsByPath takenForm = [(''a[0]'', Single 3)]
   \<and> errorBag takenForm = [(''a[0]'', [''taken''])]
   \<and> formValues takenForm = [(''a[1]'', JStr ''x'')]
   \<and> name (fieldObjects takenForm 3) = ''a[0]''
   \<and> trace takenForm = []"
  by (simp add: takenForm_def setFieldError_def setFieldErrorBag_def registerField_def
      stageInitialValue_def setFieldInitialValue_def setInPath_def
      emptyForm_def useForm_def noOptions_def exampleFields_def textField_def
      insertFieldAtPath_def errorMessage_def messagesAt_def resolveInitialValues_def
      deepCopy_def Let_def)

text \<open>
  C7, as the claim has it, fails in two ways.  The watcher tests \<open>errors.value[oldPath]
  || errors.value[newPath]\<close>, the truthiness of a first message: an entry whose first
  message is the empty string is an error by which the form is invalid, and no error
  for the watcher, which then leaves the entry of \<open>oldPath\<close> and validates nothing.  And
  an error held at \<open>oldPath\<close> is not moved to \<open>newPath\<close>: its entry is deleted and
  \<open>newPath\<close> is validated anew, so an error that this validation does not find again
  (here one set by \<open>setFieldError\<close>, on a field whose value is in order) is reported
  nowhere afterwards.
\<close>

theorem C7_error_is_not_moved:
  "errorBag blankForm = [(''a[0]'', [''''])]
   \<and> form_valid (formMeta blankForm) = False
   \<and> fieldsByPath (renameField requireValue 3 ''a[1]'' blankForm) = [(''a[1]'', Single 3)]
   \<and> errorBag (renameField requireValue 3 ''a[1]'' blankForm) = [(''a[0]'', [''''])]
   \<and> trace (renameField requireValue 3 ''a[1]'' blankForm) = trace blankForm
   \<and> form_valid (formMeta (renameField requireValue 3 ''a[1]'' blankForm)) = False
   \<and> errorBag takenForm = [(''a[0]'', [''taken''])]
   \<and> fieldsByPath (renameField requireValue 3 ''a[1]'' takenForm) = [(''a[1]'', Single 3)]
   \<and> trace (renameField requireValue 3 ''a[1]'' takenForm) = trace takenForm @ [ValidateCall 3]
   \<and> errorBag (renameField requireValue 3 ''a[1]'' takenForm) = [(''a[1]'', [])]
   \<and> errors (errorBag (renameField requireValue 3 ''a[1]'' takenForm)) = []"
  by (simp add: blankForm_eq takenForm_eq renameField_def nameChanged_def nameWatch_def
      nameWatch_cleanup_def nameWatch_reregister_def reRegister_def hasError_def errors_def
      keysOf_def fieldExists_def inheritedAt_def objectPrototypeKeys_def
      removeFieldFromPath_def insertFieldAtPath_def setFieldError_def setFieldErrorBag_def
      validateField_def callValidate_def requireValue_def getFromPath_def unsetPath_def
      field_setState_errors_def updateMeta_def formMeta_def useFormMeta_def calculateFlags_def
      allFields_def Let_def)

text \<open>
  The reads of the watcher go on to \<open>Object.prototype\<close>: at a path that names one of its
  members, \<open>errors.value[path]\<close> is truthy with no error held and \<open>fieldExists(path)\<close> is
  true with no field registered, so that the value of such an \<open>oldPath\<close> is not unset.
\<close>

lemma inherited_member_reads:
  "errorBag emptyForm = [] \<and> fieldsByPath emptyForm = []
   \<and> hasError ''constructor'' emptyForm
   \<and> fieldExists ''constructor'' emptyForm
   \<and> nameWatch_cleanup ''constructor'' (emptyForm\<lparr> formValues := [(''constructor'', JStr ''x'')] \<rparr>) =
       emptyForm\<lparr> formValues := [(''constructor'', JStr ''x'')] \<rparr>"
  by (simp add: emptyForm_def useForm_def noOptions_def hasError_def errors_def keysOf_def
      fieldExists_def inheritedAt_def nameWatch_cleanup_def objectPrototypeKeys_def)

text \<open>
  What the error bag holds after the validation of \<open>newPath\<close> is up to the validators.
  One that validates through the schema of the form writes the entries of the paths with
  no field as well: when the schema still has a message for \<open>oldPath\<close>, the entry of
  \<open>oldPath\<close> is deleted by the watcher and written again by the validation.
\<close>

lemma rename_with_schema_validator:
  "map_of (errorBag listForm) ''a[0]'' = Some [''required'']
   \<and> fieldsByPath (renameField (viaSchema itemsSchema) 3 ''a[1]'' listForm) = [(''a[1]'', Single 3)]
   \<and> errorBag (renameField (viaSchema itemsSchema) 3 ''a[1]'' listForm) =
       [(''a[0]'', [''required'']), (''a[1]'', [''required''])]"
proof -
  let ?sC = "setFieldError ''a[0]'' MUndefined (reRegister 3 ''a[1]'' ''a[0]'' renamedForm)"
  let ?sV = "updateMeta (\<lambda>m. m\<lparr> validated := True \<rparr>) 3 ?sC"
  have sv: "fieldsByPath ?sV = [(''a[1]'', Single 3)] \<and> errorBag ?sV = []
      \<and> formValues ?sV = [(''a[0]'', JStr [])] \<and> name (fieldObjects ?sV 3) = ''a[1]''
      \<and> validated (meta (fieldObjects ?sV 3)) = True"
    by (simp add: updateMeta_def setFieldError_def setFieldErrorBag_def reRegister_def
        renamedForm_eq removeFieldFromPath_def insertFieldAtPath_def Let_def)
  have fr: "runValidateSchema (Some itemsSchema) ?sV =
     \<lparr> fr_valid = False,
       fr_results = [(''a[0]'', \<lparr> vr_valid = False, vr_errors = [''required''] \<rparr>),
                     (''a[1]'', \<lparr> vr_valid = False, vr_errors = [''required''] \<rparr>)],
       fr_errors = [(''a[0]'', ''required''), (''a[1]'', ''required'')],
       fr_values = None \<rparr>"
    using sv by (simp add: runValidateSchema_def itemsSchema_def getFromPath_def)
  have p: "reconcilePaths (runValidateSchema (Some itemsSchema) ?sV) ?sV = [''a[0]'', ''a[1]'']"
    unfolding fr using sv by (simp add: reconcilePaths_def keysOf_def uniq_def)
  have run: "errorBag (snd (reconcile ValidatedOnly (runValidateSchema (Some itemsSchema) ?sV) ?sV)) =
       [(''a[0]'', [''required'']), (''a[1]'', [''required''])]
     \<and> fieldsByPath (snd (reconcile ValidatedOnly (runValidateSchema (Some itemsSchema) ?sV) ?sV)) =
       [(''a[1]'', Single 3)]"
    unfolding reconcile_def p unfolding fr
    using sv
    by (simp add: reconcileStep_def schemaMessages_def throwsAt_def inheritedAt_def
        objectPrototypeKeys_def applyFieldMutation_def updateMeta_def wasValidated_def
        field_setState_errors_def setFieldError_def setFieldErrorBag_def Let_def)
  have he: "hasError ''a[0]'' renamedForm"
    by (simp add: hasError_def errors_def keysOf_def renamedForm_eq)
  have reg: "map_of (fieldsByPath ?sC) ''a[1]'' = Some (Single 3)"
    by (simp add: setFieldError_def reRegister_def renamedForm_eq removeFieldFromPath_def
        insertFieldAtPath_def Let_def)
  have w: "snd (validateField (viaSchema itemsSchema) ''a[1]'' ?sC) =
      (snd (reconcile ValidatedOnly (runValidateSchema (Some itemsSchema) ?sV) ?sV))
        \<lparr> trace := trace ?sC @ [ValidateCall 3] \<rparr>"
    using reg
    by (simp add: validateField_def callValidate_def viaSchema_def validateSchema_def Let_def
        split: prod.splits sum.splits)
  have s1: "nameWatch_reregister (viaSchema itemsSchema) 3 ''a[1]'' ''a[0]'' renamedForm =
      (snd (reconcile ValidatedOnly (runValidateSchema (Some itemsSchema) ?sV) ?sV))
        \<lparr> trace := trace ?sC @ [ValidateCall 3] \<rparr>"
    using he w by (simp add: nameWatch_reregister_def hasError_reRegister Let_def)
  have fin: "fieldsByPath (nameWatch (viaSchema itemsSchema) 3 ''a[1]'' ''a[0]'' renamedForm) =
       [(''a[1]'', Single 3)]
     \<and> errorBag (nameWatch (viaSchema itemsSchema) 3 ''a[1]'' ''a[0]'' renamedForm) =
       [(''a[0]'', [''required'']), (''a[1]'', [''required''])]"
    unfolding nameWatch_def s1 using run
    by (simp add: nameWatch_cleanup_def fieldExists_def inheritedAt_def)
  have rn: "renameField (viaSchema itemsSchema) 3 ''a[1]'' listForm =
      nameWatch (viaSchema itemsSchema) 3 ''a[1]'' ''a[0]'' renamedForm"
    by (simp add: renameField_def listForm_eq renamedForm_def Let_def)
  show ?thesis unfolding rn using fin by (simp add: listForm_eq)
qed

text \<open>
  C7, amended.  When the path of a field changes from \<open>oldPath\<close> to \<open>newPath\<close>, neither
  of them the name of a member of \<open>Object.prototype\<close>, the watcher takes the field out of
  the entry of \<open>oldPath\<close> and puts it into the entry of \<open>newPath\<close>.  If \<open>oldPath\<close> or
  \<open>newPath\<close> holds a first message that is not the empty string, it deletes the
  error-bag entry of \<open>oldPath\<close> and runs the validation of \<open>newPath\<close>, which calls
  \<open>validate\<close> on the fields then at \<open>newPath\<close>, the renamed one last.  With validators
  that report their messages as the error state of the field they validate, and the
  fields at \<open>newPath\<close> named \<open>newPath\<close>, the entry of \<open>oldPath\<close> stays deleted, \<open>oldPath\<close>
  is free of errors, and when the renamed field is alone at \<open>newPath\<close> the entry of
  \<open>newPath\<close> is the list of messages that its new validation has found.  If neither
  path holds such a message, nothing else happens.  After the second tick, if no field
  is left at \<open>oldPath\<close>, \<open>unsetPath\<close> is applied to \<open>oldPath\<close> in the value tree; otherwise
  the values stay.
\<close>

theorem C7_rename:
  assumes ne: "oldPath \<noteq> newPath"
    and po: "oldPath \<notin> set objectPrototypeKeys"
    and pn: "newPath \<notin> set objectPrototypeKeys"
  shows
   "map_of (fieldsByPath (reRegister field newPath oldPath s)) newPath =
      (case map_of (fieldsByPath s) newPath of
         None \<Rightarrow> Some (Single field)
       | Some (Single f0) \<Rightarrow> Some (Group [f0, field])
       | Some (Group fs) \<Rightarrow> Some (Group (fs @ [field])))
    \<and> map_of (fieldsByPath (reRegister field newPath oldPath s)) oldPath =
      (case map_of (fieldsByPath s) oldPath of
         None \<Rightarrow> None
       | Some (Single f0) \<Rightarrow> if field = f0 then None else Some (Single f0)
       | Some (Group fs) \<Rightarrow>
           if field \<in> set fs
           then (if remove1 field fs = [] then None else Some (Group (remove1 field fs)))
           else Some (Group fs))
    \<and> (hasError oldPath s \<longleftrightarrow> (\<exists>m ms. map_of (errorBag s) oldPath = Some (m # ms) \<and> m \<noteq> []))
    \<and> (hasError newPath s \<longleftrightarrow> (\<exists>m ms. map_of (errorBag s) newPath = Some (m # ms) \<and> m \<noteq> []))
    \<and> (hasError oldPath s \<or> hasError newPath s \<longrightarrow>
         nameWatch_reregister fv field newPath oldPath s =
           snd (validateField fv newPath
                  (setFieldError oldPath MUndefined (reRegister field newPath oldPath s)))
         \<and> map_of (errorBag (setFieldError oldPath MUndefined
                               (reRegister field newPath oldPath s))) oldPath = None
         \<and> trace (nameWatch_reregister fv field newPath oldPath s) =
             trace s @ map ValidateCall (membersAt (fieldsByPath s) newPath @ [field])
         \<and> (reportsAsErrorState fv
            \<and> (\<forall>g\<in>set (membersAt (fieldsByPath s) newPath @ [field]).
                  name (fieldObjects s g) = newPath) \<longrightarrow>
             map_of (errorBag (nameWatch_reregister fv field newPath oldPath s)) oldPath = None
             \<and> \<not> hasError oldPath (nameWatch_reregister fv field newPath oldPath s)
             \<and> (map_of (fieldsByPath s) newPath = None \<longrightarrow>
                  map_of (errorBag (nameWatch_reregister fv field newPath oldPath s)) newPath =
                    Some (vr_errors (fst (fv field None
                            (setFieldError oldPath MUndefined
                               (reRegister field newPath oldPath s))))))))
    \<and> (\<not> hasError oldPath s \<and> \<not> hasError newPath s \<longrightarrow>
         nameWatch_reregister fv field newPath oldPath s = reRegister field newPath oldPath s)
    \<and> (map_of (fieldsByPath (nameWatch_reregister fv field newPath oldPath s)) oldPath = None \<longrightarrow>
         nameWatch fv field newPath oldPath s =
           (nameWatch_reregister fv field newPath oldPath s)
             \<lparr> formValues :=
                 unsetPath (formValues (nameWatch_reregister fv field newPath oldPath s)) oldPath \<rparr>
         \<and> getFromPath (formValues (nameWatch fv field newPath oldPath s)) oldPath = JUndefined)
    \<and> (map_of (fieldsByPath (nameWatch_reregister fv field newPath oldPath s)) oldPath \<noteq> None \<longrightarrow>
         nameWatch fv field newPath oldPath s = nameWatch_reregister fv field newPath oldPath s)"
proof -
  let ?sR = "reRegister field newPath oldPath s"
  let ?sC = "setFieldError oldPath MUndefined ?sR"
  let ?s1 = "nameWatch_reregister fv field newPath oldPath s"
  let ?ms = "membersAt (fieldsByPath s) newPath @ [field]"
  have new: "map_of (fieldsByPath ?sR) newPath =
      (case map_of (fieldsByPath s) newPath of
         None \<Rightarrow> Some (Single field)
       | Some (Single f0) \<Rightarrow> Some (Group [f0, field])
       | Some (Group fs) \<Rightarrow> Some (Group (fs @ [field])))"
    using ne by (simp add: reRegister_simps map_of_insertFieldAtPath map_of_removeFieldFromPath)
  have old: "map_of (fieldsByPath ?sR) oldPath =
      (case map_of (fieldsByPath s) oldPath of
         None \<Rightarrow> None
       | Some (Single f0) \<Rightarrow> if field = f0 then None else Some (Single f0)
       | Some (Group fs) \<Rightarrow>
           if field \<in> set fs
           then (if remove1 field fs = [] then None else Some (Group (remove1 field fs)))
           else Some (Group fs))"
    using ne by (simp add: reRegister_simps map_of_insertFieldAtPath map_of_removeFieldFromPath)
  have ho: "hasError oldPath s \<longleftrightarrow> (\<exists>m ms. map_of (errorBag s) oldPath = Some (m # ms) \<and> m \<noteq> [])"
    by (rule hasError_plain [OF po])
  have hn: "hasError newPath s \<longleftrightarrow> (\<exists>m ms. map_of (errorBag s) newPath = Some (m # ms) \<and> m \<noteq> [])"
    by (rule hasError_plain [OF pn])
  have run: "hasError oldPath s \<or> hasError newPath s \<Longrightarrow> ?s1 = snd (validateField fv newPath ?sC)"
    by (simp add: nameWatch_reregister_def hasError_reRegister Let_def)
  have cleared: "map_of (errorBag ?sC) oldPath = None"
    by (simp add: setFieldError_def map_of_setFieldErrorBag)
  have regC: "fieldsByPath ?sC = fieldsByPath ?sR" and trC: "trace ?sC = trace s"
    and objC: "fieldObjects ?sC = fieldObjects s"
    by (simp_all add: setFieldError_def reRegister_simps reRegister_def Let_def)
  obtain e where e: "map_of (fieldsByPath ?sC) newPath = Some e" and me: "members e = ?ms"
  proof (cases "map_of (fieldsByPath s) newPath")
    case None
    then have "map_of (fieldsByPath ?sC) newPath = Some (Single field)"
      using new regC by simp
    moreover have "members (Single field) = ?ms" using None by (simp add: membersAt_def)
    ultimately show ?thesis using that by blast
  next
    case (Some e0)
    then have "map_of (fieldsByPath ?sC) newPath = Some (Group (members e0 @ [field]))"
      using new regC by (cases e0) simp_all
    moreover have "members (Group (members e0 @ [field])) = ?ms" using Some by (simp add: membersAt_def)
    ultimately show ?thesis using that by blast
  qed
  have st: "snd (validateField fv newPath ?sC) = snd (mapValidate fv ?ms ?sC)"
    using validateField_registered [OF e, of fv] me by simp
  have tr: "trace (snd (validateField fv newPath ?sC)) = trace s @ map ValidateCall ?ms"
    using trace_validateField_registered [OF e, of fv] me trC by simp
  have free: "map_of (errorBag ?s1) oldPath = None \<Longrightarrow> \<not> hasError oldPath ?s1"
    using po by (simp add: hasError_def map_of_errors)
  have quiet: "\<not> hasError oldPath s \<and> \<not> hasError newPath s \<longrightarrow> ?s1 = ?sR"
    by (simp add: nameWatch_reregister_def hasError_reRegister Let_def)
  have fe: "fieldExists oldPath ?s1 \<longleftrightarrow> map_of (fieldsByPath ?s1) oldPath \<noteq> None"
    by (rule fieldExists_plain [OF po])
  have gone: "map_of (fieldsByPath ?s1) oldPath = None \<longrightarrow>
         nameWatch fv field newPath oldPath s = ?s1\<lparr> formValues := unsetPath (formValues ?s1) oldPath \<rparr>
         \<and> getFromPath (formValues (nameWatch fv field newPath oldPath s)) oldPath = JUndefined"
    using fe by (simp add: nameWatch_def nameWatch_cleanup_def unsetPath_def getFromPath_def
        AList.delete_conv')
  have keep: "map_of (fieldsByPath ?s1) oldPath \<noteq> None \<longrightarrow>
         nameWatch fv field newPath oldPath s = ?s1"
    using fe by (simp add: nameWatch_def nameWatch_cleanup_def)
  have part: "hasError oldPath s \<or> hasError newPath s \<longrightarrow>
         ?s1 = snd (validateField fv newPath ?sC)
         \<and> map_of (errorBag ?sC) oldPath = None
         \<and> trace ?s1 = trace s @ map ValidateCall ?ms
         \<and> (reportsAsErrorState fv \<and> (\<forall>g\<in>set ?ms. name (fieldObjects s g) = newPath) \<longrightarrow>
             map_of (errorBag ?s1) oldPath = None \<and> \<not> hasError oldPath ?s1
             \<and> (map_of (fieldsByPath s) newPath = None \<longrightarrow>
                  map_of (errorBag ?s1) newPath = Some (vr_errors (fst (fv field None ?sC)))))"
  proof
    assume h: "hasError oldPath s \<or> hasError newPath s"
    have e1: "?s1 = snd (validateField fv newPath ?sC)" using run [OF h] .
    have e3: "trace ?s1 = trace s @ map ValidateCall ?ms"
      using tr e1 by simp
    have e4: "reportsAsErrorState fv \<and> (\<forall>g\<in>set ?ms. name (fieldObjects s g) = newPath) \<longrightarrow>
             map_of (errorBag ?s1) oldPath = None \<and> \<not> hasError oldPath ?s1
             \<and> (map_of (fieldsByPath s) newPath = None \<longrightarrow>
                  map_of (errorBag ?s1) newPath = Some (vr_errors (fst (fv field None ?sC))))"
    proof
      assume a: "reportsAsErrorState fv \<and> (\<forall>g\<in>set ?ms. name (fieldObjects s g) = newPath)"
      then have rep: "reportsAsErrorState fv"
        and nm: "\<forall>g\<in>set ?ms. name (fieldObjects ?sC g) = newPath"
        using objC by simp_all
      note mv = mapValidate_reports [OF rep nm]
      have ne2: "?ms \<noteq> []" by simp
      from mv ne have o: "map_of (errorBag (snd (mapValidate fv ?ms ?sC))) oldPath =
          map_of (errorBag ?sC) oldPath"
        by blast
      from mv ne2 have n: "map_of (errorBag (snd (mapValidate fv ?ms ?sC))) newPath =
          Some (vr_errors (last (fst (mapValidate fv ?ms ?sC))))"
        by blast
      have o1: "map_of (errorBag ?s1) oldPath = None" using o cleared e1 st by simp
      have n1: "map_of (fieldsByPath s) newPath = None \<longrightarrow>
          map_of (errorBag ?s1) newPath = Some (vr_errors (fst (fv field None ?sC)))"
      proof
        assume "map_of (fieldsByPath s) newPath = None"
        then have ms1: "?ms = [field]" by (simp add: membersAt_def)
        have l: "last (fst (mapValidate fv [field] ?sC)) = fst (fv field None ?sC)"
          by (simp add: case_prod_beta fst_callValidate)
        have "map_of (errorBag ?s1) newPath = Some (vr_errors (last (fst (mapValidate fv ?ms ?sC))))"
          using n e1 st by simp
        then show "map_of (errorBag ?s1) newPath = Some (vr_errors (fst (fv field None ?sC)))"
          unfolding ms1 l .
      qed
      show "map_of (errorBag ?s1) oldPath = None \<and> \<not> hasError oldPath ?s1
             \<and> (map_of (fieldsByPath s) newPath = None \<longrightarrow>
                  map_of (errorBag ?s1) newPath = Some (vr_errors (fst (fv field None ?sC))))"
        using o1 n1 free by blast
    qed
    show "?s1 = snd (validateField fv newPath ?sC)
         \<and> map_of (errorBag ?sC) oldPath = None
         \<and> trace ?s1 = trace s @ map ValidateCall ?ms
         \<and> (reportsAsErrorState fv \<and> (\<forall>g\<in>set ?ms. name (fieldObjects s g) = newPath) \<longrightarrow>
             map_of (errorBag ?s1) oldPath = None \<and> \<not> hasError oldPath ?s1
             \<and> (map_of (fieldsByPath s) newPath = None \<longrightarrow>
                  map_of (errorBag ?s1) newPath = Some (vr_errors (fst (fv field None ?sC)))))"
      using e1 cleared e3 e4 by blast
  qed
  show ?thesis
    using new old ho hn part quiet gone keep by blast
qed

lemma reportsAsErrorState_requireValue: "reportsAsErrorState requireValue"
  by (simp add: reportsAsErrorState_def requireValue_def Let_def field_setState_errors_def
      updateMeta_def map_of_setFieldErrorBag)

lemma watch_renamedForm:
  "fieldsByPath (nameWatch_reregister requireValue 3 ''a[1]'' ''a[0]'' renamedForm) =
     [(''a[1]'', Single 3)]"
  by (simp add: nameWatch_reregister_def hasError_def errors_def keysOf_def
      reRegister_def renamedForm_eq removeFieldFromPath_def insertFieldAtPath_def Let_def
      setFieldError_def setFieldErrorBag_def validateField_def callValidate_def requireValue_def
      getFromPath_def field_setState_errors_def updateMeta_def)

theorem C7_rename_witness:
  "''a[0]'' \<noteq> ''a[1]''
   \<and> ''a[0]'' \<notin> set objectPrototypeKeys
   \<and> ''a[1]'' \<notin> set objectPrototypeKeys
   \<and> hasError ''a[0]'' renamedForm
   \<and> reportsAsErrorState requireValue
   \<and> name (fieldObjects renamedForm 3) = ''a[1]''
   \<and> map_of (fieldsByPath renamedForm) ''a[1]'' = None
   \<and> map_of (fieldsByPath (renameField requireValue 3 ''a[1]'' listForm)) ''a[0]'' = None
   \<and> map_of (fieldsByPath (renameField requireValue 3 ''a[1]'' listForm)) ''a[1]'' = Some (Single 3)
   \<and> map_of (errorBag listForm) ''a[0]'' = Some [''required'']
   \<and> map_of (errorBag (renameField requireValue 3 ''a[1]'' listForm)) ''a[0]'' = None
   \<and> map_of (errorBag (renameField requireValue 3 ''a[1]'' listForm)) ''a[1]'' = Some [''required'']
   \<and> trace (nameWatch_reregister requireValue 3 ''a[1]'' ''a[0]'' renamedForm) =
        trace renamedForm @ [ValidateCall 3]
   \<and> map_of (formValues renamedForm) ''a[0]'' = Some (JStr [])
   \<and> map_of (formValues (renameField requireValue 3 ''a[1]'' listForm)) ''a[0]'' = None"
proof -
  let ?s1 = "nameWatch_reregister requireValue 3 ''a[1]'' ''a[0]'' renamedForm"
  let ?sC = "setFieldError ''a[0]'' MUndefined (reRegister 3 ''a[1]'' ''a[0]'' renamedForm)"
  have ne: "''a[0]'' \<noteq> ''a[1]''" by simp
  have po: "''a[0]'' \<notin> set objectPrototypeKeys" by (simp add: objectPrototypeKeys_def)
  have pn: "''a[1]'' \<notin> set objectPrototypeKeys" by (simp add: objectPrototypeKeys_def)
  have he: "hasError ''a[0]'' renamedForm"
    by (simp add: hasError_def errors_def keysOf_def renamedForm_eq)
  have rep: "reportsAsErrorState requireValue" by (rule reportsAsErrorState_requireValue)
  have nm: "\<forall>g\<in>set (membersAt (fieldsByPath renamedForm) ''a[1]'' @ [3]).
      name (fieldObjects renamedForm g) = ''a[1]''"
    by (simp add: membersAt_def renamedForm_eq)
  have alone: "map_of (fieldsByPath renamedForm) ''a[1]'' = None"
    by (simp add: renamedForm_eq)
  note th = C7_rename [OF ne po pn, of 3 renamedForm requireValue]
  from th he have tr0: "trace ?s1 =
      trace renamedForm @ map ValidateCall (membersAt (fieldsByPath renamedForm) ''a[1]'' @ [3])"
    by blast
  have tr: "trace ?s1 = trace renamedForm @ [ValidateCall 3]"
    using tr0 by (simp add: membersAt_def renamedForm_eq)
  from th he rep nm have b0: "map_of (errorBag ?s1) ''a[0]'' = None"
    by blast
  from th he rep nm alone have b1: "map_of (errorBag ?s1) ''a[1]'' =
      Some (vr_errors (fst (requireValue 3 None ?sC)))"
    by blast
  have b1': "map_of (errorBag ?s1) ''a[1]'' = Some [''required'']"
    unfolding b1
    by (simp add: requireValue_def setFieldError_def reRegister_def renamedForm_eq
        getFromPath_def Let_def)
  have nf: "map_of (fieldsByPath ?s1) ''a[0]'' = None"
    by (simp add: watch_renamedForm)
  from th nf have un: "nameWatch requireValue 3 ''a[1]'' ''a[0]'' renamedForm =
      ?s1\<lparr> formValues := unsetPath (formValues ?s1) ''a[0]'' \<rparr>"
    by blast
  have fin: "fieldsByPath (nameWatch requireValue 3 ''a[1]'' ''a[0]'' renamedForm) =
       [(''a[1]'', Single 3)]
     \<and> errorBag (nameWatch requireValue 3 ''a[1]'' ''a[0]'' renamedForm) = errorBag ?s1
     \<and> map_of (formValues (nameWatch requireValue 3 ''a[1]'' ''a[0]'' renamedForm)) ''a[0]'' = None"
    unfolding un by (simp add: watch_renamedForm unsetPath_def AList.delete_conv')
  show ?thesis
    using ne po pn he rep alone fin tr b0 b1'
    by (simp add: renameField_listForm renamedForm_eq listForm_eq)
qed

subsection \<open>Registered fields are named by their paths\<close>

text \<open>The naming that the statements on schema runs assume holds in a new form and is kept
  by the registry operations: \<open>registerField\<close> inserts a field at the path that is its
  name.\<close>

lemma set_update_subset:
  "x \<in> set (AList.update k v al) \<Longrightarrow> x = (k, v) \<or> x \<in> set al"
  by (induction al) (auto split: if_splits)

lemma set_delete_subset:
  "x \<in> set (AList.delete k al) \<Longrightarrow> x \<in> set al"
  by (simp add: AList.delete_eq)

lemma namesConsistent_useForm: "namesConsistent (useForm opts objs)"
  by (simp add: namesConsistent_def useForm_def)

lemma namesConsistent_insert:
  assumes nc: "namesConsistent s" and nm: "name (fieldObjects s f) = p"
  shows "namesConsistent (s\<lparr> fieldsByPath := insertFieldAtPath f p (fieldsByPath s) \<rparr>)"
proof -
  have old: "\<And>q e g. (q, e) \<in> set (fieldsByPath s) \<Longrightarrow> g \<in> set (members e) \<Longrightarrow>
      name (fieldObjects s g) = q"
    using nc by (auto simp: namesConsistent_def list_all_iff)
  have "\<And>q e g. (q, e) \<in> set (insertFieldAtPath f p (fieldsByPath s)) \<Longrightarrow> g \<in> set (members e) \<Longrightarrow>
      name (fieldObjects s g) = q"
  proof -
    fix q e g
    assume in1: "(q, e) \<in> set (insertFieldAtPath f p (fieldsByPath s))" and g: "g \<in> set (members e)"
    show "name (fieldObjects s g) = q"
    proof (cases "map_of (fieldsByPath s) p")
      case None
      with in1 have "(q, e) = (p, Single f) \<or> (q, e) \<in> set (fieldsByPath s)"
        by (auto simp: insertFieldAtPath_def dest: set_update_subset)
      then show ?thesis using g nm old by auto
    next
      case (Some e0)
      then have m0: "(p, e0) \<in> set (fieldsByPath s)" by (rule map_of_SomeD)
      from in1 Some have "(q = p \<and> set (members e) = insert f (set (members e0))) \<or> (q, e) \<in> set (fieldsByPath s)"
        by (cases e0) (auto simp: insertFieldAtPath_def dest!: set_update_subset)
      then show ?thesis using g nm old m0 by auto
    qed
  qed
  then show ?thesis by (auto simp: namesConsistent_def list_all_iff)
qed

lemma namesConsistent_remove:
  assumes nc: "namesConsistent s"
  shows "namesConsistent (s\<lparr> fieldsByPath := removeFieldFromPath f p (fieldsByPath s) \<rparr>)"
proof -
  have old: "\<And>q e g. (q, e) \<in> set (fieldsByPath s) \<Longrightarrow> g \<in> set (members e) \<Longrightarrow>
      name (fieldObjects s g) = q"
    using nc by (auto simp: namesConsistent_def list_all_iff)
  have "\<And>q e g. (q, e) \<in> set (removeFieldFromPath f p (fieldsByPath s)) \<Longrightarrow> g \<in> set (members e) \<Longrightarrow>
      name (fieldObjects s g) = q"
  proof -
    fix q e g
    assume in1: "(q, e) \<in> set (removeFieldFromPath f p (fieldsByPath s))" and g: "g \<in> set (members e)"
    show "name (fieldObjects s g) = q"
    proof (cases "map_of (fieldsByPath s) p")
      case None
      with in1 show ?thesis using g old by (simp add: removeFieldFromPath_def)
    next
      case (Some e0)
      then have m0: "(p, e0) \<in> set (fieldsByPath s)" by (rule map_of_SomeD)
      from in1 Some have "(q = p \<and> set (members e) \<subseteq> set (members e0)) \<or> (q, e) \<in> set (fieldsByPath s)"
        by (cases e0) (auto simp: removeFieldFromPath_def dest!: set_update_subset set_delete_subset
            split: if_splits dest: set_remove1_subset [THEN subsetD])
      then show ?thesis using g old m0 by auto
    qed
  qed
  then show ?thesis by (auto simp: namesConsistent_def list_all_iff)
qed

subsection \<open>Schema reconciliation\<close>

lemma foldl_updateMeta:
  "foldl (\<lambda>st f. updateMeta g f st) s fs =
     s\<lparr> fieldObjects := foldl (\<lambda>h f. h(f := (h f)\<lparr> meta := g (meta (h f)) \<rparr>)) (fieldObjects s) fs \<rparr>"
  by (induction fs arbitrary: s) (simp_all add: updateMeta_def)

lemma foldl_set_valid:
  "foldl (\<lambda>h f. h(f := (h f)\<lparr> meta := (meta (h f))\<lparr> valid := b \<rparr> \<rparr>)) h0 fs f =
     (if f \<in> set fs then (h0 f)\<lparr> meta := (meta (h0 f))\<lparr> valid := b \<rparr> \<rparr> else h0 f)"
  by (induction fs arbitrary: h0) auto

lemma foldl_setState:
  "foldl (\<lambda>st f. field_setState_errors errs f st) s fs =
     s\<lparr> errorBag := foldl (\<lambda>b f. setFieldErrorBag (name (fieldObjects s f)) (MArr errs) b)
                         (errorBag s) fs \<rparr>"
  by (induction fs arbitrary: s) (simp_all add: field_setState_errors_def)


lemma step_state:
  "snd (reconcileStep md fr reg acc p) =
     (case map_of reg p of
        None \<Rightarrow> (snd acc)\<lparr> errorBag := setFieldErrorBag p (MArr (schemaMessages fr p)) (errorBag (snd acc)) \<rparr>
      | Some e \<Rightarrow>
          (snd acc)\<lparr> fieldObjects :=
                       foldl (\<lambda>h f. h(f := (h f)\<lparr> meta := (meta (h f))\<lparr> valid := (schemaMessages fr p = []) \<rparr> \<rparr>))
                             (fieldObjects (snd acc)) (members e),
                     errorBag :=
                       (if md \<noteq> Silent \<and> (md = ValidatedOnly \<longrightarrow>
                              wasValidated (foldl (\<lambda>h f. h(f := (h f)\<lparr> meta := (meta (h f))\<lparr> valid := (schemaMessages fr p = []) \<rparr> \<rparr>))
                                  (fieldObjects (snd acc)) (members e)) e)
                        then foldl (\<lambda>b f. setFieldErrorBag (name (foldl (\<lambda>h f. h(f := (h f)\<lparr> meta := (meta (h f))\<lparr> valid := (schemaMessages fr p = []) \<rparr> \<rparr>))
                                  (fieldObjects (snd acc)) (members e) f)) (MArr (schemaMessages fr p)) b)
                               (errorBag (snd acc)) (members e)
                        else errorBag (snd acc)) \<rparr>)"
  by (auto simp: reconcileStep_def Let_def applyFieldMutation_def foldl_updateMeta foldl_setState
      setFieldError_def split: option.splits)


lemma step_frame:
  "fieldsByPath (snd (reconcileStep md fr reg acc p)) = fieldsByPath (snd acc)"
  by (simp add: step_state split: option.splits)

lemma step_objects:
  "fieldObjects (snd (reconcileStep md fr reg acc p)) f =
     (if f \<in> set (membersAt reg p)
      then (fieldObjects (snd acc) f)\<lparr> meta := (meta (fieldObjects (snd acc) f))\<lparr> valid := (schemaMessages fr p = []) \<rparr> \<rparr>
      else fieldObjects (snd acc) f)"
  by (simp add: step_state membersAt_def foldl_set_valid split: option.splits)



lemma step_results:
  "map_of (fr_results (fst (reconcileStep md fr reg acc p))) q =
     (if q = p then Some \<lparr> vr_valid = (schemaMessages fr p = []), vr_errors = schemaMessages fr p \<rparr>
      else map_of (fr_results (fst acc)) q)"
  by (simp add: reconcileStep_def Let_def AList.update_conv' split: option.splits list.splits)

lemma step_errors:
  "map_of (fr_errors (fst (reconcileStep md fr reg acc p))) q =
     (if q = p \<and> schemaMessages fr p \<noteq> [] then Some (hd (schemaMessages fr p))
      else map_of (fr_errors (fst acc)) q)"
  by (simp add: reconcileStep_def Let_def AList.update_conv' split: option.splits list.splits)


lemma fold_results:
  "map_of (fr_results (fst (foldl (reconcileStep md fr reg) acc ps))) q =
     (if q \<in> set ps then Some \<lparr> vr_valid = (schemaMessages fr q = []), vr_errors = schemaMessages fr q \<rparr>
      else map_of (fr_results (fst acc)) q)"
  by (induction ps rule: rev_induct) (simp_all add: step_results)






lemma set_uniq: "set (uniq xs) = set xs"
  by (simp add: uniq_def)

lemma distinct_uniq: "distinct (uniq xs)"
  by (simp add: uniq_def)

lemma set_reconcilePaths:
  "set (reconcilePaths fr s) =
     set (keysOf (fr_results fr)) \<union> set (keysOf (fieldsByPath s)) \<union> set (keysOf (errorBag s))"
  by (simp add: reconcilePaths_def set_uniq Un_assoc)



lemma loop_fold:
  "\<forall>p\<in>set ps. \<not> throwsAt fr reg p \<Longrightarrow>
   reconcileLoop md fr reg ps acc =
     (Inr (fst (foldl (reconcileStep md fr reg) acc ps)),
      snd (foldl (reconcileStep md fr reg) acc ps))"
  by (induction ps arbitrary: acc) simp_all

lemma plain_no_throw: "p \<notin> set objectPrototypeKeys \<Longrightarrow> \<not> throwsAt fr reg p"
  by (simp add: throwsAt_def inheritedAt_def)


lemma step_unregistered:
  "map_of reg p = None \<Longrightarrow>
   snd (reconcileStep md fr reg acc p) = setFieldError p (MArr (schemaMessages fr p)) (snd acc)"
  by (simp add: reconcileStep_def Let_def)

lemma step_valid:
  "map_of reg p = Some e \<Longrightarrow> f \<in> set (members e) \<Longrightarrow>
   valid (meta (fieldObjects (snd (reconcileStep md fr reg acc p)) f)) = (schemaMessages fr p = [])"
  by (simp add: step_objects membersAt_def)

lemma schemaForm_eq:
  "fieldsByPath schemaForm = [(''email'', Single 0)]
   \<and> errorBag schemaForm = []
   \<and> formValues schemaForm = []
   \<and> fieldObjects schemaForm 0 = textField ''email''"
  by (simp add: schemaForm_def registerField_def emptyForm_def useForm_def noOptions_def
      exampleFields_def textField_def insertFieldAtPath_def errorMessage_def messagesAt_def
      resolveInitialValues_def deepCopy_def Let_def)

lemma exampleSchema_schemaForm:
  "runValidateSchema (Some exampleSchema) schemaForm =
     \<lparr> fr_valid = False,
       fr_results = [(''email'', \<lparr> vr_valid = False, vr_errors = [''email is required''] \<rparr>),
                     (''agree'', \<lparr> vr_valid = False, vr_errors = [''must agree''] \<rparr>)],
       fr_errors = [(''email'', ''email is required''), (''agree'', ''must agree'')],
       fr_values = None \<rparr>"
  by (simp add: runValidateSchema_def exampleSchema_def schemaForm_eq getFromPath_def)


lemma schemaMessages_example:
  "schemaMessages (runValidateSchema (Some exampleSchema) schemaForm) ''email'' = [''email is required'']"
  "schemaMessages (runValidateSchema (Some exampleSchema) schemaForm) ''agree'' = [''must agree'']"
  by (simp_all add: schemaMessages_def exampleSchema_schemaForm)

lemma emptyEntryForm_eq:
  "fieldsByPath emptyEntryForm = [] \<and> errorBag emptyEntryForm = [(''email'', [])]"
  by (simp add: emptyEntryForm_def setFieldError_def setFieldErrorBag_def emptyForm_def
      useForm_def noOptions_def)

lemma staleForm_eq:
  "fieldsByPath staleForm = [(''email'', Single 0)]
   \<and> errorBag staleForm = [(''zip'', [])]
   \<and> formValues staleForm = []
   \<and> name (fieldObjects staleForm 0) = ''zip''"
  by (simp add: staleForm_def setFieldError_def setFieldErrorBag_def nameChanged_def
      schemaForm_eq)

lemma exampleSchema_staleForm:
  "runValidateSchema (Some exampleSchema) staleForm =
     \<lparr> fr_valid = False,
       fr_results = [(''email'', \<lparr> vr_valid = False, vr_errors = [''email is required''] \<rparr>),
                     (''agree'', \<lparr> vr_valid = False, vr_errors = [''must agree''] \<rparr>)],
       fr_errors = [(''email'', ''email is required''), (''agree'', ''must agree'')],
       fr_values = None \<rparr>"
  by (simp add: runValidateSchema_def exampleSchema_def staleForm_eq getFromPath_def)

text \<open>
  C2, as the claim has it, fails in its third set: the reconciliation takes the keys of
  the error bag, an entry with no message included, not the paths with a non-empty
  entry.  With no schema result, no field and an error bag whose only entry, at \<open>email\<close>,
  is empty, the union of the claim is empty, and the run goes through \<open>email\<close> and gives
  it a result in the aggregate it returns.  The round of such a path writes, too: in a
  form in which the field of \<open>email\<close> has just been renamed to \<open>zip\<close>, and \<open>zip\<close> has an
  empty entry, a run in \<open>force\<close> mode pushes the messages of \<open>email\<close> into the error state
  of the field, which is the entry of \<open>zip\<close>, and the round of \<open>zip\<close> then overwrites the
  entry with the schema messages of \<open>zip\<close>, of which there are none; the rounds of the
  union of the claim leave the messages there.
\<close>

theorem C2_empty_entry_is_processed:
  "keysOf (fr_results (runValidateSchema None emptyEntryForm)) = []
   \<and> keysOf (fieldsByPath emptyEntryForm) = []
   \<and> errorBag emptyEntryForm = [(''email'', [])]
   \<and> claimedPaths (runValidateSchema None emptyEntryForm) emptyEntryForm = []
   \<and> reconcilePaths (runValidateSchema None emptyEntryForm) emptyEntryForm = [''email'']
   \<and> fst (reconcile Force (runValidateSchema None emptyEntryForm) emptyEntryForm) =
       Inr \<lparr> fr_valid = True,
             fr_results = [(''email'', \<lparr> vr_valid = True, vr_errors = [] \<rparr>)],
             fr_errors = [], fr_values = None \<rparr>
   \<and> fieldsByPath staleForm = [(''email'', Single 0)]
   \<and> name (fieldObjects staleForm 0) = ''zip''
   \<and> errorBag staleForm = [(''zip'', [])]
   \<and> claimedPaths (runValidateSchema (Some exampleSchema) staleForm) staleForm =
       [''email'', ''agree'']
   \<and> reconcilePaths (runValidateSchema (Some exampleSchema) staleForm) staleForm =
       [''email'', ''agree'', ''zip'']
   \<and> errorBag (snd (reconcile Force (runValidateSchema (Some exampleSchema) staleForm) staleForm)) =
       [(''zip'', []), (''agree'', [''must agree''])]
   \<and> errorBag (snd (reconcileLoop Force (runValidateSchema (Some exampleSchema) staleForm)
        (fieldsByPath staleForm)
        (claimedPaths (runValidateSchema (Some exampleSchema) staleForm) staleForm)
        (\<lparr> fr_valid = False, fr_results = [], fr_errors = [], fr_values = None \<rparr>, staleForm))) =
       [(''zip'', [''email is required'']), (''agree'', [''must agree''])]"
proof -
  have a: "keysOf (fr_results (runValidateSchema None emptyEntryForm)) = []
   \<and> keysOf (fieldsByPath emptyEntryForm) = []
   \<and> errorBag emptyEntryForm = [(''email'', [])]
   \<and> claimedPaths (runValidateSchema None emptyEntryForm) emptyEntryForm = []
   \<and> reconcilePaths (runValidateSchema None emptyEntryForm) emptyEntryForm = [''email'']
   \<and> fst (reconcile Force (runValidateSchema None emptyEntryForm) emptyEntryForm) =
       Inr \<lparr> fr_valid = True,
             fr_results = [(''email'', \<lparr> vr_valid = True, vr_errors = [] \<rparr>)],
             fr_errors = [], fr_values = None \<rparr>"
    by (simp add: runValidateSchema_def keysOf_def emptyEntryForm_eq claimedPaths_def
        messagesAt_def reconcilePaths_def uniq_def reconcile_def reconcileStep_def
        schemaMessages_def throwsAt_def inheritedAt_def objectPrototypeKeys_def Let_def)
  have b: "claimedPaths (runValidateSchema (Some exampleSchema) staleForm) staleForm =
       [''email'', ''agree'']
   \<and> reconcilePaths (runValidateSchema (Some exampleSchema) staleForm) staleForm =
       [''email'', ''agree'', ''zip'']"
    by (simp add: exampleSchema_staleForm staleForm_eq claimedPaths_def reconcilePaths_def
        keysOf_def messagesAt_def uniq_def)
  then have b1: "claimedPaths (runValidateSchema (Some exampleSchema) staleForm) staleForm =
       [''email'', ''agree'']"
    and b2: "reconcilePaths (runValidateSchema (Some exampleSchema) staleForm) staleForm =
       [''email'', ''agree'', ''zip'']"
    by simp_all
  have c: "errorBag (snd (reconcile Force (runValidateSchema (Some exampleSchema) staleForm) staleForm)) =
       [(''zip'', []), (''agree'', [''must agree''])]"
    unfolding reconcile_def b2
    by (simp add: exampleSchema_staleForm staleForm_eq reconcileStep_def schemaMessages_def
        throwsAt_def inheritedAt_def objectPrototypeKeys_def applyFieldMutation_def
        updateMeta_def field_setState_errors_def setFieldError_def setFieldErrorBag_def Let_def)
  have d: "errorBag (snd (reconcileLoop Force (runValidateSchema (Some exampleSchema) staleForm)
        (fieldsByPath staleForm)
        (claimedPaths (runValidateSchema (Some exampleSchema) staleForm) staleForm)
        (\<lparr> fr_valid = False, fr_results = [], fr_errors = [], fr_values = None \<rparr>, staleForm))) =
       [(''zip'', [''email is required'']), (''agree'', [''must agree''])]"
    unfolding b1
    by (simp add: exampleSchema_staleForm staleForm_eq reconcileStep_def schemaMessages_def
        throwsAt_def inheritedAt_def objectPrototypeKeys_def applyFieldMutation_def
        updateMeta_def field_setState_errors_def setFieldError_def setFieldErrorBag_def Let_def)
  show ?thesis using a b c d by (simp add: staleForm_eq)
qed

text \<open>
  The reads of a round go on to \<open>Object.prototype\<close>: with an error-bag entry at
  \<open>constructor\<close>, a path with no field and no schema result, the run finds the inherited
  member where it looks for the result of the path, and throws a \<open>TypeError\<close> where the
  claim has the messages of the path written; the promise of \<open>validateSchema\<close> rejects.
\<close>

lemma reconcile_inherited_member:
  "fieldsByPath inheritedEntryForm = []
   \<and> errorBag inheritedEntryForm = [(''constructor'', [''bad''])]
   \<and> reconcilePaths (runValidateSchema None inheritedEntryForm) inheritedEntryForm =
       [''constructor'']
   \<and> reconcile Force (runValidateSchema None inheritedEntryForm) inheritedEntryForm =
       (Inl TypeError, inheritedEntryForm)
   \<and> validateSchema None Force inheritedEntryForm = (Inl TypeError, inheritedEntryForm)"
  by (simp add: inheritedEntryForm_def setFieldError_def setFieldErrorBag_def emptyForm_def
      useForm_def noOptions_def runValidateSchema_def reconcilePaths_def keysOf_def uniq_def
      validateSchema_def reconcile_def throwsAt_def inheritedAt_def objectPrototypeKeys_def)

text \<open>
  C2, amended.  The reconciliation of a schema run goes through exactly the union of
  three sets of paths, each path once: the paths of the schema result, the paths with a
  registered field, and the paths that have an entry in the error bag, an entry with no
  message included.  When none of these paths names a member of \<open>Object.prototype\<close>, the
  run is the sequence of the rounds of these paths, in their order, and each of them,
  and no other path, gets a result \<open>{errors, valid}\<close> in the aggregate.  A round that does
  not throw: for a path with no registered field, it is \<open>setFieldError\<close> of the path with
  the schema messages of the path (an empty list when the schema has none); for a path
  with a registered field, it sets the \<open>valid\<close> flag of every field there to "the schema
  has no message for the path", whatever the mode; and it leaves the registry as it is.
\<close>

theorem C2_reconciliation:
  "set (reconcilePaths fr s) =
     set (keysOf (fr_results fr)) \<union> set (keysOf (fieldsByPath s)) \<union> set (keysOf (errorBag s))
   \<and> distinct (reconcilePaths fr s)
   \<and> ((\<forall>p\<in>set (reconcilePaths fr s). p \<notin> set objectPrototypeKeys) \<longrightarrow>
        reconcile md fr s =
          (Inr (fst (foldl (reconcileStep md fr (fieldsByPath s))
                  (\<lparr> fr_valid = fr_valid fr, fr_results = [], fr_errors = [], fr_values = None \<rparr>, s)
                  (reconcilePaths fr s))),
           snd (foldl (reconcileStep md fr (fieldsByPath s))
                  (\<lparr> fr_valid = fr_valid fr, fr_results = [], fr_errors = [], fr_values = None \<rparr>, s)
                  (reconcilePaths fr s)))
        \<and> (\<exists>v. fst (reconcile md fr s) = Inr v
              \<and> map_of (fr_results v) q =
                  (if q \<in> set (reconcilePaths fr s)
                   then Some \<lparr> vr_valid = (schemaMessages fr q = []), vr_errors = schemaMessages fr q \<rparr>
                   else None)))
   \<and> (map_of reg p = None \<and> \<not> throwsAt fr reg p \<longrightarrow>
        snd (reconcileStep md fr reg acc p) =
          setFieldError p (MArr (schemaMessages fr p)) (snd acc))
   \<and> (map_of reg p = Some e \<and> \<not> throwsAt fr reg p \<and> f \<in> set (members e) \<longrightarrow>
        valid (meta (fieldObjects (snd (reconcileStep md fr reg acc p)) f)) =
          (schemaMessages fr p = []))
   \<and> fieldsByPath (snd (reconcileStep md fr reg acc p)) = fieldsByPath (snd acc)"
proof -
  let ?init = "(\<lparr> fr_valid = fr_valid fr, fr_results = [], fr_errors = [], fr_values = None \<rparr>, s)"
  let ?run = "foldl (reconcileStep md fr (fieldsByPath s)) ?init (reconcilePaths fr s)"
  have paths: "set (reconcilePaths fr s) =
     set (keysOf (fr_results fr)) \<union> set (keysOf (fieldsByPath s)) \<union> set (keysOf (errorBag s))"
    by (rule set_reconcilePaths)
  have dist: "distinct (reconcilePaths fr s)"
    by (simp add: reconcilePaths_def distinct_uniq)
  have run: "(\<forall>p\<in>set (reconcilePaths fr s). p \<notin> set objectPrototypeKeys) \<longrightarrow>
        reconcile md fr s = (Inr (fst ?run), snd ?run)
        \<and> (\<exists>v. fst (reconcile md fr s) = Inr v
              \<and> map_of (fr_results v) q =
                  (if q \<in> set (reconcilePaths fr s)
                   then Some \<lparr> vr_valid = (schemaMessages fr q = []), vr_errors = schemaMessages fr q \<rparr>
                   else None))"
  proof
    assume a: "\<forall>p\<in>set (reconcilePaths fr s). p \<notin> set objectPrototypeKeys"
    then have nt: "\<forall>p\<in>set (reconcilePaths fr s). \<not> throwsAt fr (fieldsByPath s) p"
      by (simp add: plain_no_throw)
    have r: "reconcile md fr s = (Inr (fst ?run), snd ?run)"
      unfolding reconcile_def by (rule loop_fold [OF nt])
    have res: "map_of (fr_results (fst ?run)) q =
        (if q \<in> set (reconcilePaths fr s)
         then Some \<lparr> vr_valid = (schemaMessages fr q = []), vr_errors = schemaMessages fr q \<rparr>
         else None)"
      by (simp add: fold_results)
    show "reconcile md fr s = (Inr (fst ?run), snd ?run)
        \<and> (\<exists>v. fst (reconcile md fr s) = Inr v
              \<and> map_of (fr_results v) q =
                  (if q \<in> set (reconcilePaths fr s)
                   then Some \<lparr> vr_valid = (schemaMessages fr q = []), vr_errors = schemaMessages fr q \<rparr>
                   else None))"
      using r res by simp
  qed
  have un: "map_of reg p = None \<and> \<not> throwsAt fr reg p \<longrightarrow>
        snd (reconcileStep md fr reg acc p) =
          setFieldError p (MArr (schemaMessages fr p)) (snd acc)"
    by (simp add: step_unregistered)
  have vl: "map_of reg p = Some e \<and> \<not> throwsAt fr reg p \<and> f \<in> set (members e) \<longrightarrow>
        valid (meta (fieldObjects (snd (reconcileStep md fr reg acc p)) f)) =
          (schemaMessages fr p = [])"
    by (simp add: step_valid)
  have fr: "fieldsByPath (snd (reconcileStep md fr reg acc p)) = fieldsByPath (snd acc)"
    by (rule step_frame)
  show ?thesis using paths dist run un vl fr by blast
qed

lemma reconcilePaths_schemaForm:
  "reconcilePaths (runValidateSchema (Some exampleSchema) schemaForm) schemaForm =
     [''email'', ''agree'']"
  by (simp add: exampleSchema_schemaForm schemaForm_eq reconcilePaths_def keysOf_def uniq_def)

lemma plain_schemaForm:
  "\<forall>p\<in>set (reconcilePaths (runValidateSchema (Some exampleSchema) schemaForm) schemaForm).
     p \<notin> set objectPrototypeKeys"
  by (simp add: reconcilePaths_schemaForm objectPrototypeKeys_def)

theorem C2_reconciliation_witness:
  "reconcilePaths (runValidateSchema (Some exampleSchema) schemaForm) schemaForm =
     [''email'', ''agree'']
   \<and> ''email'' \<notin> set objectPrototypeKeys \<and> ''agree'' \<notin> set objectPrototypeKeys
   \<and> (\<exists>v. fst (reconcile Silent (runValidateSchema (Some exampleSchema) schemaForm) schemaForm) =
             Inr v
          \<and> map_of (fr_results v) ''agree'' =
              Some \<lparr> vr_valid = False, vr_errors = [''must agree''] \<rparr>)
   \<and> map_of (fieldsByPath schemaForm) ''agree'' = None
   \<and> snd (reconcileStep Silent (runValidateSchema (Some exampleSchema) schemaForm)
        (fieldsByPath schemaForm) (\<lparr> fr_valid = False, fr_results = [], fr_errors = [], fr_values = None \<rparr>, schemaForm) ''agree'') =
       setFieldError ''agree'' (MArr [''must agree'']) schemaForm
   \<and> map_of (fieldsByPath schemaForm) ''email'' = Some (Single 0)
   \<and> valid (meta (fieldObjects schemaForm 0)) = True
   \<and> valid (meta (fieldObjects (snd (reconcileStep Silent
        (runValidateSchema (Some exampleSchema) schemaForm) (fieldsByPath schemaForm)
        (\<lparr> fr_valid = False, fr_results = [], fr_errors = [], fr_values = None \<rparr>, schemaForm) ''email'')) 0)) = False"
proof -
  let ?fr = "runValidateSchema (Some exampleSchema) schemaForm"
  note a = C2_reconciliation [where fr = ?fr and s = schemaForm and md = Silent
      and q = "''agree''" and reg = "fieldsByPath schemaForm" and p = "''agree''"
      and acc = "(\<lparr> fr_valid = False, fr_results = [], fr_errors = [], fr_values = None \<rparr>, schemaForm)"]
  note b = C2_reconciliation [where fr = ?fr and s = schemaForm and md = Silent
      and reg = "fieldsByPath schemaForm" and p = "''email''" and e = "Single 0" and f = 0
      and acc = "(\<lparr> fr_valid = False, fr_results = [], fr_errors = [], fr_values = None \<rparr>, schemaForm)"]
  have pe: "''email'' \<notin> set objectPrototypeKeys" and pa: "''agree'' \<notin> set objectPrototypeKeys"
    by (simp_all add: objectPrototypeKeys_def)
  have nta: "\<not> throwsAt ?fr (fieldsByPath schemaForm) ''agree''"
    and nte: "\<not> throwsAt ?fr (fieldsByPath schemaForm) ''email''"
    using pe pa by (simp_all add: plain_no_throw)
  have un: "map_of (fieldsByPath schemaForm) ''agree'' = None"
    by (simp add: schemaForm_eq)
  have rg: "map_of (fieldsByPath schemaForm) ''email'' = Some (Single 0)"
    by (simp add: schemaForm_eq)
  from a plain_schemaForm have r: "\<exists>v. fst (reconcile Silent ?fr schemaForm) = Inr v
      \<and> map_of (fr_results v) ''agree'' =
          (if ''agree'' \<in> set (reconcilePaths ?fr schemaForm)
           then Some \<lparr> vr_valid = (schemaMessages ?fr ''agree'' = []),
                       vr_errors = schemaMessages ?fr ''agree'' \<rparr>
           else None)"
    by blast
  from a un nta have w: "snd (reconcileStep Silent ?fr (fieldsByPath schemaForm)
      (\<lparr> fr_valid = False, fr_results = [], fr_errors = [], fr_values = None \<rparr>, schemaForm) ''agree'') =
      setFieldError ''agree'' (MArr (schemaMessages ?fr ''agree'')) (snd (\<lparr> fr_valid = False, fr_results = [], fr_errors = [], fr_values = None \<rparr>, schemaForm))"
    by blast
  from b rg nte have v: "valid (meta (fieldObjects (snd (reconcileStep Silent ?fr
      (fieldsByPath schemaForm) (\<lparr> fr_valid = False, fr_results = [], fr_errors = [], fr_values = None \<rparr>, schemaForm) ''email'')) 0)) =
      (schemaMessages ?fr ''email'' = [])"
    by simp
  have v0: "valid (meta (fieldObjects schemaForm 0)) = True"
    by (simp add: schemaForm_eq textField_def)
  show ?thesis using r w v v0 un rg pe pa
    by (simp add: schemaMessages_example reconcilePaths_schemaForm)
qed








end
